theory Spec2Isabelle
  imports Main "HOL-Library.Word"
begin

section \<open>Per-thread faker state (server/faker.cpp, lines 43-50 and 319-351)\<close>

text \<open>
  The C type \<open>long\<close> is modelled as a 64-bit word (the LP64 data model of
  64-bit Linux); \<open>+\<close> and \<open>-\<close> on it wrap around, and \<open>sint\<close>
  reads the two's-complement value.  The C type \<open>int\<close> is a 32-bit word.  A
  \<open>Display *\<close> is an address, \<open>NULL\<close> being address 0.  A \<open>Drawable\<close> is an XID, an
  \<open>unsigned long\<close>; the cast \<open>(long)d\<close> keeps its 64 bits.
\<close>

type_synonym long = "64 word"
type_synonym cint = "32 word"
type_synonym display_ptr = nat
type_synonym Drawable = "64 word"

definition NULL :: display_ptr where
  "NULL = 0"

text \<open>
  Modelled from the spec: the macro \<open>VGL_THREAD_LOCAL(name, type, default)\<close> comes from
  threadlocal.h, which is not among the sources.  Following section 4.3 of the
  specification (typed get/set per field, one default value per field, state never
  shared between threads) each use of the macro is a field of the record below, with
  a getter \<open>getName\<close> and a setter \<open>setName\<close>; the defaults are the third macro
  arguments of lines 43-50.
\<close>

record thread_local =
  TraceLevel :: long
  FakerLevel :: long
  ExcludeCurrent :: bool
  AutotestColor :: long
  AutotestRColor :: long
  AutotestFrame :: long
  AutotestDisplay :: display_ptr
  AutotestDrawable :: long

definition thread_defaults :: thread_local where
  "thread_defaults =
     \<lparr>TraceLevel = 0, FakerLevel = 0, ExcludeCurrent = False,
      AutotestColor = - 1, AutotestRColor = - 1, AutotestFrame = - 1,
      AutotestDisplay = NULL, AutotestDrawable = 0\<rparr>"

definition getFakerLevel :: "thread_local \<Rightarrow> long" where
  "getFakerLevel t = FakerLevel t"

definition setFakerLevel :: "long \<Rightarrow> thread_local \<Rightarrow> thread_local" where
  "setFakerLevel v t = t\<lparr>FakerLevel := v\<rparr>"

definition getExcludeCurrent :: "thread_local \<Rightarrow> bool" where
  "getExcludeCurrent t = ExcludeCurrent t"

definition setExcludeCurrent :: "bool \<Rightarrow> thread_local \<Rightarrow> thread_local" where
  "setExcludeCurrent v t = t\<lparr>ExcludeCurrent := v\<rparr>"

definition getAutotestColor :: "thread_local \<Rightarrow> long" where
  "getAutotestColor t = AutotestColor t"

definition getAutotestRColor :: "thread_local \<Rightarrow> long" where
  "getAutotestRColor t = AutotestRColor t"

definition getAutotestFrame :: "thread_local \<Rightarrow> long" where
  "getAutotestFrame t = AutotestFrame t"

definition getAutotestDisplay :: "thread_local \<Rightarrow> display_ptr" where
  "getAutotestDisplay t = AutotestDisplay t"

definition getAutotestDrawable :: "thread_local \<Rightarrow> long" where
  "getAutotestDrawable t = AutotestDrawable t"

text \<open>
  Conversion of a \<open>long\<close> to the \<open>int\<close> that the autotest entry points return: the
  low 32 bits are kept.
\<close>

definition long_to_int :: "long \<Rightarrow> cint" where
  "long_to_int v = ucast v"

text \<open>\<open>_vgl_getAutotestColor\<close>, lines 319-327; \<open>right\<close> is tested for being non-zero.\<close>

definition vgl_getAutotestColor :: "thread_local \<Rightarrow> display_ptr \<Rightarrow> Drawable \<Rightarrow> cint \<Rightarrow> cint" where
  "vgl_getAutotestColor t dpy d right =
     (if getAutotestDisplay t = dpy \<and> getAutotestDrawable t = d
      then (if right \<noteq> 0 then long_to_int (getAutotestRColor t)
            else long_to_int (getAutotestColor t))
      else - 1)"

text \<open>\<open>_vgl_getAutotestFrame\<close>, lines 330-337.\<close>

definition vgl_getAutotestFrame :: "thread_local \<Rightarrow> display_ptr \<Rightarrow> Drawable \<Rightarrow> cint" where
  "vgl_getAutotestFrame t dpy d =
     (if getAutotestDisplay t = dpy \<and> getAutotestDrawable t = d
      then long_to_int (getAutotestFrame t)
      else - 1)"

text \<open>\<open>_vgl_disableFaker\<close> and \<open>_vgl_enableFaker\<close>, lines 341-351.\<close>

definition vgl_disableFaker :: "thread_local \<Rightarrow> thread_local" where
  "vgl_disableFaker t = setExcludeCurrent True (setFakerLevel (getFakerLevel t + 1) t)"

definition vgl_enableFaker :: "thread_local \<Rightarrow> thread_local" where
  "vgl_enableFaker t = setExcludeCurrent False (setFakerLevel (getFakerLevel t - 1) t)"

section \<open>C strings and the C library functions the sources call\<close>

text \<open>
  A C string is modelled by the list of its characters before the terminating NUL.
  The functions of this section belong to the C library, not to the repository; they
  are modelled from their manual pages, in the "C" locale.
\<close>

definition tolower :: "char \<Rightarrow> char" where
  "tolower c =
     (let n = (of_char c :: nat)
      in if 65 \<le> n \<and> n \<le> 90 then char_of (n + 32) else c)"

text \<open>
  \<open>strcasecmp\<close> compares two strings ignoring case and returns an integer less
  than, equal to or greater than zero; the model returns the sign.  \<open>strncasecmp\<close>
  compares at most \<open>n\<close> characters.
\<close>

fun strcasecmp :: "string \<Rightarrow> string \<Rightarrow> int" where
  "strcasecmp [] [] = 0"
| "strcasecmp [] (b # bs) = - 1"
| "strcasecmp (a # as) [] = 1"
| "strcasecmp (a # as) (b # bs) =
     (if tolower a = tolower b then strcasecmp as bs
      else if (of_char (tolower a) :: nat) < of_char (tolower b) then - 1 else 1)"

definition strncasecmp :: "string \<Rightarrow> string \<Rightarrow> nat \<Rightarrow> int" where
  "strncasecmp a b n = strcasecmp (take n a) (take n b)"

text \<open>
  \<open>strtok\<close> keeps a hidden pointer to the rest of the string between calls; the
  model passes it explicitly.  The first argument is \<open>Some s\<close> for a call on a new
  string and \<open>None\<close> for a call with \<open>NULL\<close>, which continues from the saved rest.
  The call skips leading delimiters; when nothing is left it returns \<open>NULL\<close>;
  otherwise the token runs up to the next delimiter, and the saved rest starts
  after that delimiter.
\<close>

definition strtok :: "string option \<Rightarrow> string \<Rightarrow> string \<Rightarrow> string option \<times> string" where
  "strtok str delim saved =
     (let s = (case str of Some s' \<Rightarrow> s' | None \<Rightarrow> saved);
          s1 = dropWhile (\<lambda>c. c \<in> set delim) s
      in if s1 = [] then (None, [])
         else (Some (takeWhile (\<lambda>c. c \<notin> set delim) s1),
               drop 1 (dropWhile (\<lambda>c. c \<notin> set delim) s1)))"

section \<open>Excluded displays (server/faker.cpp, lines 259-275)\<close>

text \<open>The delimiter string \<open>", \t"\<close> of the two \<open>strtok\<close> calls.\<close>

definition dpy_delims :: string where
  "dpy_delims = [CHR '','', CHR '' '', CHR 0x09]"

text \<open>
  The \<open>while(excluded)\<close> loop of \<open>isDisplayStringExcluded\<close>: \<open>excluded\<close> is the
  current token (\<open>None\<close> for \<open>NULL\<close>), \<open>saved\<close> the rest of \<open>dpyList\<close> that \<open>strtok\<close>
  remembers.
\<close>

function excluded_loop :: "string \<Rightarrow> string option \<Rightarrow> string \<Rightarrow> bool" where
  "excluded_loop name excluded saved =
     (case excluded of
        None \<Rightarrow> False
      | Some e \<Rightarrow>
          if strcasecmp name e = 0 then True
          else (case strtok None dpy_delims saved of
                  (excluded', saved') \<Rightarrow> excluded_loop name excluded' saved'))"
  by pat_completeness auto
termination
proof (relation "measure (\<lambda>(name, excluded, saved).
         2 * length saved + (case excluded of None \<Rightarrow> 0 | Some _ \<Rightarrow> 1))")
  show "wf (measure (\<lambda>(name, excluded, saved).
         2 * length saved + (case excluded of None \<Rightarrow> 0 | Some _ \<Rightarrow> (1::nat))))"
    by simp
next
  fix name :: string and excluded :: "string option" and saved e :: string
    and excluded' :: "string option" and saved' :: string
  assume "excluded = Some e" and "strcasecmp name e \<noteq> 0"
    and "(excluded', saved') = strtok None dpy_delims saved"
  then have st: "strtok None dpy_delims saved = (excluded', saved')" by simp
  have "2 * length saved' + (case excluded' of None \<Rightarrow> 0 | Some _ \<Rightarrow> 1)
        < 2 * length saved + (1::nat)"
  proof (cases excluded')
    case None
    with st have "saved' = []"
      by (auto simp add: strtok_def Let_def split: if_splits)
    with None show ?thesis by simp
  next
    case (Some t)
    define s1 where "s1 = dropWhile (\<lambda>c. c \<in> set dpy_delims) saved"
    define s2 where "s2 = dropWhile (\<lambda>c. c \<notin> set dpy_delims) s1"
    from st Some have ne: "s1 \<noteq> []" and rest: "saved' = drop 1 s2"
      unfolding s1_def s2_def by (auto simp add: strtok_def Let_def split: if_splits)
    have "length s1 \<le> length saved"
      unfolding s1_def by (rule length_dropWhile_le)
    moreover have "length s2 \<le> length s1"
      unfolding s2_def by (rule length_dropWhile_le)
    moreover have "length saved' = length s2 - 1"
      using rest by simp
    moreover have "0 < length s1"
      using ne by simp
    ultimately have "length saved' < length saved"
      by linarith
    with Some show ?thesis by simp
  qed
  with \<open>excluded = Some e\<close>
  show "((name, excluded', saved'), (name, excluded, saved))
        \<in> measure (\<lambda>(name, excluded, saved).
            2 * length saved + (case excluded of None \<Rightarrow> 0 | Some _ \<Rightarrow> 1))"
    by simp
qed

declare excluded_loop.simps [simp del]

text \<open>
  \<open>isDisplayStringExcluded\<close>.  The first argument is the value of
  \<open>fconfig.excludeddpys\<close> after \<open>fconfig_reloadenv()\<close> (the configuration code is not
  among the sources); \<open>strdup\<close> copies it, so that \<open>strtok\<close> works on the copy.
\<close>

definition isDisplayStringExcluded :: "string \<Rightarrow> string \<Rightarrow> bool" where
  "isDisplayStringExcluded excludeddpys name =
     (let dpyList = excludeddpys
      in case strtok (Some dpyList) dpy_delims [] of
           (excluded, saved) \<Rightarrow> excluded_loop name excluded saved)"

text \<open>
  The specification's reading of the same operation: the list is split at every
  comma, space and tab, the empty pieces are dropped, and the name is looked up
  among the remaining tokens ignoring case.
\<close>

definition is_separator :: "char \<Rightarrow> bool" where
  "is_separator c = (c = CHR '','' \<or> c = CHR '' '' \<or> c = CHR 0x09)"

fun split_fields :: "string \<Rightarrow> string list" where
  "split_fields [] = [[]]"
| "split_fields (c # cs) =
     (if is_separator c then [] # split_fields cs
      else (case split_fields cs of
              [] \<Rightarrow> [[c]]
            | f # fs \<Rightarrow> (c # f) # fs))"

definition list_tokens :: "string \<Rightarrow> string list" where
  "list_tokens s = filter (\<lambda>t. t \<noteq> []) (split_fields s)"

definition equal_ignoring_case :: "string \<Rightarrow> string \<Rightarrow> bool" where
  "equal_ignoring_case a b = (map tolower a = map tolower b)"

definition excluded_member_spec :: "string \<Rightarrow> string \<Rightarrow> bool" where
  "excluded_member_spec excludeddpys name =
     list_ex (\<lambda>t. equal_ignoring_case t name) (list_tokens excludeddpys)"

section \<open>Process-wide faker state and shutdown (server/faker.cpp, lines 37-102)\<close>

text \<open>
  The resource hashes that \<open>cleanup\<close> visits.  The last three exist only in a build
  with \<open>EGLBACKEND\<close> defined.
\<close>

datatype hash_id =
    PixmapHash | VisualHash | ContextHash | GLXDrawableHash | WindowHash
  | EGLPbufferHash | EGLContextHash | EGLConfigHash

text \<open>
  Calls that leave the modelled state: releasing memory and calling into parts of the
  faker that are not among the sources.  They are recorded, in order, in the trace.
\<close>

datatype event =
    ReleaseEntry hash_id nat
  | ReleaseTable hash_id
  | FreeGlExtensions nat
  | UnloadSymbols
  | DeleteConfigInstance
  | ReloadEnv

text \<open>
  Modelled from the spec: the hash classes (\<open>PixmapHash.h\<close>, \<open>VisualHash.h\<close>,
  \<open>ContextHash.h\<close>, \<open>GLXDrawableHash.h\<close>, \<open>WindowHash.h\<close> and the EGL ones), with
  their \<open>isAlloc()\<close> and \<open>kill()\<close>, are not among the sources.  Following sections 3
  and 4.2 of the specification, a registry is a lazily allocated table from native
  handles to tracking state with unique keys: \<open>None\<close> is a registry that is not
  allocated, \<open>Some es\<close> an allocated table with entries \<open>es\<close>.  \<open>isAlloc\<close> reports
  whether the table is allocated; \<open>kill\<close> releases all entries and the table itself,
  and is a no-op on a registry that is not allocated.
\<close>

type_synonym registry = "(nat \<times> nat) list option"

record faker_state =
  dpy3D :: display_ptr
  deadYet :: bool
  glExtensions :: nat
  init_done :: bool
  hashes :: "hash_id \<Rightarrow> registry"
  trace :: "event list"

definition isAlloc :: "hash_id \<Rightarrow> faker_state \<Rightarrow> bool" where
  "isAlloc h s = (hashes s h \<noteq> None)"

definition kill_events :: "hash_id \<Rightarrow> registry \<Rightarrow> event list" where
  "kill_events h r =
     (case r of
        None \<Rightarrow> []
      | Some es \<Rightarrow> map (\<lambda>e. ReleaseEntry h (fst e)) es @ [ReleaseTable h])"

definition kill :: "hash_id \<Rightarrow> faker_state \<Rightarrow> faker_state" where
  "kill h s =
     s\<lparr>hashes := (hashes s)(h := None),
       trace := trace s @ kill_events h (hashes s h)\<rparr>"

text \<open>
  The globals of lines 37-39 at program start.  \<open>init_done\<close> is the static variable
  \<open>init\<close> of the function \<open>init\<close>; no registry is allocated yet.
\<close>

definition initial_state :: faker_state where
  "initial_state =
     \<lparr>dpy3D = NULL, deadYet = False, glExtensions = 0, init_done = False,
      hashes = (\<lambda>h. None), trace = []\<rparr>"

text \<open>
  The calls at the end of \<open>cleanup\<close> and in \<open>safeExit\<close> whose bodies are elsewhere.
  \<open>free\<close> leaves the pointer variable as it is.
\<close>

definition free_glExtensions :: "faker_state \<Rightarrow> faker_state" where
  "free_glExtensions s = s\<lparr>trace := trace s @ [FreeGlExtensions (glExtensions s)]\<rparr>"

definition unloadSymbols :: "faker_state \<Rightarrow> faker_state" where
  "unloadSymbols s = s\<lparr>trace := trace s @ [UnloadSymbols]\<rparr>"

definition fconfig_deleteinstance :: "faker_state \<Rightarrow> faker_state" where
  "fconfig_deleteinstance s = s\<lparr>trace := trace s @ [DeleteConfigInstance]\<rparr>"

definition fconfig_reloadenv :: "faker_state \<Rightarrow> faker_state" where
  "fconfig_reloadenv s = s\<lparr>trace := trace s @ [ReloadEnv]\<rparr>"

text \<open>
  Lines 55-64 of \<open>cleanup\<close>: each registry is killed only if \<open>isAlloc()\<close> reports it
  allocated.  The argument \<open>EGLBACKEND\<close> says whether the build defines that macro.
\<close>

definition cleanup_hashes :: "bool \<Rightarrow> faker_state \<Rightarrow> faker_state" where
  "cleanup_hashes EGLBACKEND s0 =
     (let s1 = (if isAlloc PixmapHash s0 then kill PixmapHash s0 else s0);
          s2 = (if isAlloc VisualHash s1 then kill VisualHash s1 else s1);
          s3 = (if isAlloc ContextHash s2 then kill ContextHash s2 else s2);
          s4 = (if isAlloc GLXDrawableHash s3 then kill GLXDrawableHash s3 else s3);
          s5 = (if isAlloc WindowHash s4 then kill WindowHash s4 else s4)
      in if EGLBACKEND
         then (let s6 = (if isAlloc EGLPbufferHash s5 then kill EGLPbufferHash s5 else s5);
                   s7 = (if isAlloc EGLContextHash s6 then kill EGLContextHash s6 else s6);
                   s8 = (if isAlloc EGLConfigHash s7 then kill EGLConfigHash s7 else s7)
               in s8)
         else s5)"

text \<open>One line of that sequence, for the registry \<open>h\<close>.\<close>

definition kill_if_alloc :: "hash_id \<Rightarrow> faker_state \<Rightarrow> faker_state" where
  "kill_if_alloc h s = (if isAlloc h s then kill h s else s)"

text \<open>\<open>cleanup\<close>, lines 53-67.\<close>

definition cleanup :: "bool \<Rightarrow> faker_state \<Rightarrow> faker_state" where
  "cleanup EGLBACKEND s = unloadSymbols (free_glExtensions (cleanup_hashes EGLBACKEND s))"

text \<open>
  How a call ends that does not return: \<open>exit(retcode)\<close> ends the process,
  \<open>pthread_exit(0)\<close> ends the calling thread only.
\<close>

datatype call_end = ProcessExit cint | ThreadExit cint

text \<open>
  \<open>safeExit\<close>, lines 70-85.  The statements between \<open>globalMutex.lock\<close> and
  \<open>globalMutex.unlock\<close> run under the global critical section; the model takes
  them as one step.
\<close>

definition safeExit :: "bool \<Rightarrow> cint \<Rightarrow> faker_state \<Rightarrow> faker_state \<times> call_end" where
  "safeExit EGLBACKEND retcode s =
     (let shutdown = deadYet s;
          s' = (if \<not> deadYet s
                then fconfig_deleteinstance (cleanup EGLBACKEND (s\<lparr>deadYet := True\<rparr>))
                else s)
      in (s', if \<not> shutdown then ProcessExit retcode else ThreadExit 0))"

text \<open>
  The destructor of the static object \<open>globalCleanup\<close>, lines 88-102, which runs
  when the process exits.  It takes the global critical section if that exists.
\<close>

definition GlobalCleanup_destructor :: "faker_state \<Rightarrow> faker_state" where
  "GlobalCleanup_destructor s = (fconfig_deleteinstance s)\<lparr>deadYet := True\<rparr>"

text \<open>
  \<open>init\<close>, lines 145-167: the double-checked static flag and the reload of the
  configuration.  The remaining statements print, wait for a debugger or install the
  X11 error handler, as the configuration says; they change none of the fields above.
\<close>

definition init :: "faker_state \<Rightarrow> faker_state" where
  "init s = (if init_done s then s else fconfig_reloadenv (s\<lparr>init_done := True\<rparr>))"

text \<open>
  \<open>init3D\<close>, lines 170-256, on the path that opens a connection to the 3D X server
  (\<open>fconfig.egl\<close> not set); \<open>opened\<close> is what \<open>_XOpenDisplay\<close> returns.  The result is
  the new state, how the call ended if it did not return, and the returned display.
\<close>

definition init3D :: "bool \<Rightarrow> display_ptr \<Rightarrow> faker_state
    \<Rightarrow> faker_state \<times> call_end option \<times> display_ptr" where
  "init3D EGLBACKEND opened s0 =
     (let s = init s0
      in if dpy3D s = NULL
         then (if opened = NULL
               then (case safeExit EGLBACKEND 1 s of (s', t) \<Rightarrow> (s', Some t, NULL))
               else (s\<lparr>dpy3D := opened\<rparr>, None, opened))
         else (s, None, dpy3D s))"

text \<open>
  The steps of the program on the process-wide state: a call of \<open>safeExit\<close>, the
  destructor of \<open>globalCleanup\<close>, a call of \<open>init3D\<close>, and any other step of the
  faker.  No statement of the sources other than lines 78 and 98 assigns \<open>deadYet\<close>,
  so every other step leaves it as it is.
\<close>

inductive faker_step :: "bool \<Rightarrow> faker_state \<Rightarrow> faker_state \<Rightarrow> bool"
  for EGLBACKEND :: bool
where
  step_safeExit: "faker_step EGLBACKEND s (fst (safeExit EGLBACKEND retcode s))"
| step_destructor: "faker_step EGLBACKEND s (GlobalCleanup_destructor s)"
| step_init3D: "faker_step EGLBACKEND s (fst (init3D EGLBACKEND opened s))"
| step_other: "deadYet s' = deadYet s \<Longrightarrow> faker_step EGLBACKEND s s'"

text \<open>
  A process execution, as far as teardown goes: the calls of \<open>safeExit\<close> in the order
  in which the calling threads enter the critical section (\<open>early\<close> the calls
  before the destructor runs, \<open>late\<close> those after it), and the destructor of
  \<open>globalCleanup\<close> at process exit.  Each call is given by its \<open>retcode\<close>.
\<close>

definition safeExit_calls :: "bool \<Rightarrow> cint list \<Rightarrow> faker_state \<Rightarrow> faker_state" where
  "safeExit_calls EGLBACKEND retcodes s =
     fold (\<lambda>retcode s'. fst (safeExit EGLBACKEND retcode s')) retcodes s"

definition process_lifetime :: "bool \<Rightarrow> cint list \<Rightarrow> cint list \<Rightarrow> faker_state \<Rightarrow> faker_state" where
  "process_lifetime EGLBACKEND early late s =
     safeExit_calls EGLBACKEND late
       (GlobalCleanup_destructor (safeExit_calls EGLBACKEND early s))"

text \<open>The registries of a build, in the order of \<open>cleanup\<close>.\<close>

definition hash_classes :: "bool \<Rightarrow> hash_id list" where
  "hash_classes EGLBACKEND =
     [PixmapHash, VisualHash, ContextHash, GLXDrawableHash, WindowHash]
     @ (if EGLBACKEND then [EGLPbufferHash, EGLContextHash, EGLConfigHash] else [])"

text \<open>
  What one run of the teardown of \<open>safeExit\<close> adds to the trace, from a state \<open>s\<close>:
  the release of every allocated registry of the build, the \<open>free\<close> of
  \<open>glExtensions\<close>, \<open>unloadSymbols\<close> and the deletion of the configuration instance.
\<close>

definition teardown_events :: "bool \<Rightarrow> faker_state \<Rightarrow> event list" where
  "teardown_events EGLBACKEND s =
     concat (map (\<lambda>h. kill_events h (hashes s h)) (hash_classes EGLBACKEND))
     @ [FreeGlExtensions (glExtensions s), UnloadSymbols, DeleteConfigInstance]"

text \<open>
  A state in the middle of a run, for concrete evaluation: two registries are
  allocated (one of them empty) and the extension string has been cached.
\<close>

definition example_state :: faker_state where
  "example_state =
     \<lparr>dpy3D = 1, deadYet = False, glExtensions = 4096, init_done = True,
      hashes = (\<lambda>h. None)(WindowHash := Some [(7, 1), (9, 2)], ContextHash := Some []),
      trace = [ReloadEnv]\<rparr>"

section \<open>The display-client test harness (rr/rrdisplayserverut.cpp, lines 19-86)\<close>

text \<open>
  \<open>atoi\<close> of the C library: leading white space, an optional sign, then decimal
  digits up to the first character that is not one.  For a value outside the range
  of \<open>int\<close> the C standard leaves the result open; the model follows the GNU
  library, which clamps to the range of \<open>long\<close> as \<open>strtol\<close> does and keeps the low
  32 bits.  The result is given as the integer value of the C \<open>int\<close>.
\<close>

definition isspace :: "char \<Rightarrow> bool" where
  "isspace c = (let n = (of_char c :: nat) in n = 32 \<or> (9 \<le> n \<and> n \<le> 13))"

definition isdigit :: "char \<Rightarrow> bool" where
  "isdigit c = (let n = (of_char c :: nat) in 48 \<le> n \<and> n \<le> 57)"

definition digit_value :: "char \<Rightarrow> int" where
  "digit_value c = int (of_char c) - 48"

definition strtol_value :: "string \<Rightarrow> int" where
  "strtol_value s =
     (let s1 = dropWhile isspace s;
          signed = (s1 \<noteq> [] \<and> (hd s1 = CHR ''-'' \<or> hd s1 = CHR ''+''));
          negative = (s1 \<noteq> [] \<and> hd s1 = CHR ''-'');
          s2 = (if signed then tl s1 else s1);
          v = foldl (\<lambda>a c. 10 * a + digit_value c) 0 (takeWhile isdigit s2)
      in if negative then - v else v)"

definition atoi :: "string \<Rightarrow> int" where
  "atoi s = signed_take_bit 31 (max (- (2 ^ 63)) (min (2 ^ 63 - 1) (strtol_value s)))"

text \<open>
  Modelled from the spec: \<open>stricmp\<close> and \<open>strnicmp\<close> are macros of a header that is not
  among the sources.  The specification describes the options \<open>-client\<close> and \<open>-ssl\<close>
  of the harness, which the source recognises with these two functions; they are
  taken to be the case-insensitive comparisons \<open>strcasecmp\<close> and \<open>strncasecmp\<close>.
\<close>

definition stricmp :: "string \<Rightarrow> string \<Rightarrow> int" where
  "stricmp a b = strcasecmp a b"

definition strnicmp :: "string \<Rightarrow> string \<Rightarrow> nat \<Rightarrow> int" where
  "strnicmp a b n = strncasecmp a b n"

text \<open>
  The test of line 28.  \<open>argc\<close> is the length of \<open>argv\<close>; the operator \<open>||\<close> evaluates
  \<open>argv[1]\<close> and \<open>argv[2]\<close> only when \<open>argc\<close> is at least 3.
\<close>

definition args_malformed :: "string list \<Rightarrow> bool" where
  "args_malformed argv =
     (if int (length argv) < 3 then True
      else if atoi (argv ! 1) < 1 then True
      else atoi (argv ! 2) < 1)"

text \<open>
  The loop of lines 38-45, from index \<open>i\<close> on, with the current values of \<open>usessl\<close>
  and \<open>clientname\<close> (\<open>None\<close> for \<open>NULL\<close>).  After an argument that starts with \<open>-cl\<close>
  and is not the last one, the next argument becomes the client name and is
  skipped.
\<close>

function scan_args :: "string list \<Rightarrow> nat \<Rightarrow> bool \<Rightarrow> string option \<Rightarrow> bool \<times> string option" where
  "scan_args argv i usessl clientname =
     (if i < length argv
      then (let usessl' = (if stricmp (argv ! i) ''-ssl'' = 0 then True else usessl)
            in if strnicmp (argv ! i) ''-cl'' 3 = 0 \<and> int i < int (length argv) - 1
               then scan_args argv (i + 2) usessl' (Some (argv ! (i + 1)))
               else scan_args argv (i + 1) usessl' clientname)
      else (usessl, clientname))"
  by pat_completeness auto
termination
  by (relation "measure (\<lambda>(argv, i, usessl, clientname). length argv - i)") auto

declare scan_args.simps [simp del]

text \<open>
  Line 48.  The two macros \<open>RR_DEFAULTPORT\<close> and \<open>RR_DEFAULTSSLPORT\<close> are defined in a
  header that is not among the sources; their values, as \<open>unsigned short\<close>, are
  parameters.
\<close>

type_synonym port = "16 word"

definition select_port :: "port \<Rightarrow> port \<Rightarrow> bool \<Rightarrow> port" where
  "select_port RR_DEFAULTPORT RR_DEFAULTSSLPORT usessl =
     (if usessl then RR_DEFAULTSSLPORT else RR_DEFAULTPORT)"

definition harness_port :: "port \<Rightarrow> port \<Rightarrow> string list \<Rightarrow> port" where
  "harness_port RR_DEFAULTPORT RR_DEFAULTSSLPORT argv =
     select_port RR_DEFAULTPORT RR_DEFAULTSSLPORT (fst (scan_args argv 0 False None))"

text \<open>
  What the harness meets outside itself: the results of the Xlib calls, and for
  each cycle \<open>i\<close> and frame \<open>f\<close> whether constructing the display client, getting a
  bitmap and sending the frame succeed (\<open>None\<close>) or throw an \<open>rrerror\<close> with a message
  (\<open>errifnot\<close> throws one when its argument is null).
\<close>

record harness_env =
  XInitThreads :: bool
  XOpenDisplay :: display_ptr
  XCreateSimpleWindow :: nat
  XMapRaised :: bool
  DisplayString :: string
  new_rrdisplayclient :: "nat \<Rightarrow> string option"
  getbitmap :: "nat \<Rightarrow> nat \<Rightarrow> string option"
  sendframe :: "nat \<Rightarrow> nat \<Rightarrow> string option"

text \<open>What the harness prints and does, in order.\<close>

datatype harness_event =
    Usage
  | CreatingWindow nat
  | TestingIterations int
  | Connect nat string port bool
  | SendFrame nat nat
  | Disconnect nat
  | ErrorMessage string
  | XDestroyWindow
  | XCloseDisplay

text \<open>
  The loop of lines 69-78 for cycle \<open>i\<close>, from frame \<open>f\<close> on: the events of the frames
  sent, and the message of the \<open>rrerror\<close> that ended the loop, if any.
\<close>

function send_frames :: "harness_env \<Rightarrow> nat \<Rightarrow> nat \<Rightarrow> int \<Rightarrow> harness_event list \<times> string option" where
  "send_frames env i f frames =
     (if int f < frames
      then (case getbitmap env i f of
              Some m \<Rightarrow> ([], Some m)
            | None \<Rightarrow>
                (case sendframe env i f of
                   Some m \<Rightarrow> ([], Some m)
                 | None \<Rightarrow>
                     (case send_frames env i (f + 1) frames of
                        (es, r) \<Rightarrow> (SendFrame i f # es, r))))
      else ([], None))"
  by pat_completeness auto
termination
  by (relation "measure (\<lambda>(env, i, f, frames). nat (frames - int f))") auto

declare send_frames.simps [simp del]

text \<open>
  The loop of lines 65-80, from cycle \<open>i\<close> on: connect, send the frames, disconnect
  (\<open>delete rrdpy\<close>).  An \<open>rrerror\<close> leaves the loop at once.
\<close>

function cycles :: "harness_env \<Rightarrow> string \<Rightarrow> port \<Rightarrow> bool \<Rightarrow> int \<Rightarrow> nat \<Rightarrow> int
    \<Rightarrow> harness_event list \<times> string option" where
  "cycles env clientname p usessl frames i iter =
     (if int i < iter
      then (case new_rrdisplayclient env i of
              Some m \<Rightarrow> ([], Some m)
            | None \<Rightarrow>
                (case send_frames env i 0 frames of
                   (es, Some m) \<Rightarrow> (Connect i clientname p usessl # es, Some m)
                 | (es, None) \<Rightarrow>
                     (case cycles env clientname p usessl frames (i + 1) iter of
                        (es', r) \<Rightarrow>
                          (Connect i clientname p usessl # es @ Disconnect i # es', r))))
      else ([], None))"
  by pat_completeness auto
termination
  by (relation "measure (\<lambda>(env, clientname, p, usessl, frames, i, iter). nat (iter - int i))") auto

declare cycles.simps [simp del]

text \<open>
  The \<open>try\<close> block after the argument check, lines 38-80: the events, the display
  and the window as they are when the block is left, and the message of the
  \<open>rrerror\<close> that was thrown, if any.
\<close>

definition try_block :: "harness_env \<Rightarrow> port \<Rightarrow> port \<Rightarrow> string list \<Rightarrow> int \<Rightarrow> int
    \<Rightarrow> harness_event list \<times> display_ptr \<times> nat \<times> string option" where
  "try_block env RR_DEFAULTPORT RR_DEFAULTSSLPORT argv iter frames =
     (case scan_args argv 0 False None of
        (usessl, clientname0) \<Rightarrow>
          (let p = select_port RR_DEFAULTPORT RR_DEFAULTSSLPORT usessl
           in if \<not> XInitThreads env then ([], NULL, 0, Some ''Could not initialize X threads'')
              else (let dpy = XOpenDisplay env
                    in if dpy = NULL then ([], dpy, 0, Some ''Could not open display'')
                       else (let win = XCreateSimpleWindow env
                             in if win = 0 then ([], dpy, win, Some ''Could not create window'')
                                else if \<not> XMapRaised env
                                then ([CreatingWindow win], dpy, win,
                                      Some ''Unexpected NULL condition'')
                                else (let clientname =
                                            (case clientname0 of
                                               None \<Rightarrow> DisplayString env
                                             | Some c \<Rightarrow> c)
                                      in case cycles env clientname p usessl frames 0 iter of
                                           (es, r) \<Rightarrow>
                                             (CreatingWindow win # TestingIterations iter # es,
                                              dpy, win, r))))))"

text \<open>
  \<open>main\<close>: the events and the exit status.  The usage message ends the process with
  \<open>exit(1)\<close>; otherwise the \<open>catch\<close> clause prints the message of an \<open>rrerror\<close>, the
  window and the display are released if they exist, and control reaches the end of
  \<open>main\<close>, which gives exit status 0.
\<close>

definition harness_main :: "harness_env \<Rightarrow> port \<Rightarrow> port \<Rightarrow> string list \<Rightarrow> harness_event list \<times> int" where
  "harness_main env RR_DEFAULTPORT RR_DEFAULTSSLPORT argv =
     (if args_malformed argv then ([Usage], 1)
      else (let iter = atoi (argv ! 1); frames = atoi (argv ! 2)
            in case try_block env RR_DEFAULTPORT RR_DEFAULTSSLPORT argv iter frames of
                 (es, dpy, win, r) \<Rightarrow>
                   (es
                    @ (case r of None \<Rightarrow> [] | Some m \<Rightarrow> [ErrorMessage m])
                    @ (if win \<noteq> 0 then [XDestroyWindow] else [])
                    @ (if dpy \<noteq> NULL then [XCloseDisplay] else []),
                    0)))"

text \<open>
  The specification's reading of the option scan: the arguments that the loop
  looks at, that is all of them except those taken as the value of a preceding
  \<open>-cl...\<close> option.
\<close>

fun scanned_args :: "string list \<Rightarrow> string list" where
  "scanned_args [] = []"
| "scanned_args [a] = [a]"
| "scanned_args (a # b # rest) =
     (if equal_ignoring_case (take 3 a) ''-cl'' then a # scanned_args rest
      else a # scanned_args (b # rest))"

abbreviation (input) is_ssl :: "string \<Rightarrow> bool" where
  "is_ssl a \<equiv> equal_ignoring_case a ''-ssl''"

abbreviation (input) is_cl :: "string \<Rightarrow> bool" where
  "is_cl a \<equiv> equal_ignoring_case (take 3 a) ''-cl''"

text \<open>
  The environment lets a run of \<open>iter\<close> cycles of \<open>frames\<close> frames go through: the
  Xlib calls succeed and no call of a cycle throws.
\<close>

definition env_succeeds :: "harness_env \<Rightarrow> int \<Rightarrow> int \<Rightarrow> bool" where
  "env_succeeds env iter frames =
     (XInitThreads env \<and> XOpenDisplay env \<noteq> NULL \<and> XCreateSimpleWindow env \<noteq> 0
      \<and> XMapRaised env
      \<and> (\<forall>i < nat iter. new_rrdisplayclient env i = None
            \<and> (\<forall>f < nat frames. getbitmap env i f = None \<and> sendframe env i f = None)))"

text \<open>One complete cycle: connect, send \<open>frames\<close> frames, disconnect.\<close>

definition cycle_events :: "string \<Rightarrow> port \<Rightarrow> bool \<Rightarrow> int \<Rightarrow> nat \<Rightarrow> harness_event list" where
  "cycle_events clientname p usessl frames i =
     Connect i clientname p usessl # map (SendFrame i) [0..<nat frames] @ [Disconnect i]"

text \<open>The client name that the cycles connect to (lines 43 and 58).\<close>

definition harness_clientname :: "harness_env \<Rightarrow> string list \<Rightarrow> string" where
  "harness_clientname env argv =
     (case snd (scan_args argv 0 False None) of
        None \<Rightarrow> DisplayString env
      | Some c \<Rightarrow> c)"

text \<open>The Xlib calls of lines 50-56 succeed.\<close>

definition x_setup_succeeds :: "harness_env \<Rightarrow> bool" where
  "x_setup_succeeds env =
     (XInitThreads env \<and> XOpenDisplay env \<noteq> NULL \<and> XCreateSimpleWindow env \<noteq> 0
      \<and> XMapRaised env)"

text \<open>No call of the first \<open>j\<close> frames of cycle \<open>i\<close> throws.\<close>

definition frames_succeed :: "harness_env \<Rightarrow> nat \<Rightarrow> nat \<Rightarrow> bool" where
  "frames_succeed env i j = (\<forall>f < j. getbitmap env i f = None \<and> sendframe env i f = None)"

text \<open>No call of the first \<open>k\<close> cycles, of \<open>frames\<close> frames each, throws.\<close>

definition cycles_succeed :: "harness_env \<Rightarrow> nat \<Rightarrow> int \<Rightarrow> bool" where
  "cycles_succeed env k frames =
     (\<forall>i < k. new_rrdisplayclient env i = None \<and> frames_succeed env i (nat frames))"

text \<open>
  What a run prints before the first cycle, the connect event of cycle \<open>i\<close>, and
  the events of the first \<open>k\<close> cycles when each of them is complete.
\<close>

definition harness_prologue :: "harness_env \<Rightarrow> string list \<Rightarrow> harness_event list" where
  "harness_prologue env argv =
     [CreatingWindow (XCreateSimpleWindow env), TestingIterations (atoi (argv ! 1))]"

definition connect_event :: "harness_env \<Rightarrow> port \<Rightarrow> port \<Rightarrow> string list \<Rightarrow> nat \<Rightarrow> harness_event" where
  "connect_event env RR_DEFAULTPORT RR_DEFAULTSSLPORT argv i =
     Connect i (harness_clientname env argv)
       (harness_port RR_DEFAULTPORT RR_DEFAULTSSLPORT argv)
       (fst (scan_args argv 0 False None))"

definition completed_cycles :: "harness_env \<Rightarrow> port \<Rightarrow> port \<Rightarrow> string list \<Rightarrow> nat
    \<Rightarrow> harness_event list" where
  "completed_cycles env RR_DEFAULTPORT RR_DEFAULTSSLPORT argv k =
     concat (map (cycle_events (harness_clientname env argv)
                    (harness_port RR_DEFAULTPORT RR_DEFAULTSSLPORT argv)
                    (fst (scan_args argv 0 False None)) (atoi (argv ! 2)))
               [0..<k])"

text \<open>
  Environments for concrete evaluation: one where everything works, and one for
  each way in which a run can fail.
\<close>

definition working_env :: harness_env where
  "working_env =
     \<lparr>XInitThreads = True, XOpenDisplay = 1, XCreateSimpleWindow = 5, XMapRaised = True,
      DisplayString = '':0.0'', new_rrdisplayclient = (\<lambda>i. None),
      getbitmap = (\<lambda>i f. None), sendframe = (\<lambda>i f. None)\<rparr>"

definition no_display_env :: harness_env where
  "no_display_env = working_env\<lparr>XOpenDisplay := NULL\<rparr>"

definition no_threads_env :: harness_env where
  "no_threads_env = working_env\<lparr>XInitThreads := False\<rparr>"

definition no_window_env :: harness_env where
  "no_window_env = working_env\<lparr>XCreateSimpleWindow := 0\<rparr>"

definition no_map_env :: harness_env where
  "no_map_env = working_env\<lparr>XMapRaised := False\<rparr>"

definition refused_env :: harness_env where
  "refused_env =
     working_env\<lparr>new_rrdisplayclient :=
       (\<lambda>i. if i = 1 then Some ''Connection refused'' else None)\<rparr>"

definition no_bitmap_env :: harness_env where
  "no_bitmap_env =
     working_env\<lparr>getbitmap :=
       (\<lambda>i f. if i = 1 \<and> f = 1 then Some ''Unexpected NULL condition'' else None)\<rparr>"

definition broken_send_env :: harness_env where
  "broken_send_env =
     working_env\<lparr>sendframe :=
       (\<lambda>i f. if i = 0 \<and> f = 1 then Some ''Broken pipe'' else None)\<rparr>"

section \<open>Properties of the per-thread state\<close>

lemmas thread_local_accessors =
  getFakerLevel_def setFakerLevel_def getExcludeCurrent_def setExcludeCurrent_def
  getAutotestColor_def getAutotestRColor_def getAutotestFrame_def
  getAutotestDisplay_def getAutotestDrawable_def

lemma sint_long_succ:
  assumes "sint (x::long) < 2 ^ 63 - 1"
  shows "sint (x + 1) = sint x + 1"
proof -
  have lower: "- (2 ^ 63) \<le> sint x"
    using sint_ge [of x] by simp
  have "sint (x + 1) = signed_take_bit 63 (sint x + 1)"
    by (simp add: sint_word_ariths)
  also have "\<dots> = sint x + 1"
    using assms lower by (intro signed_take_bit_int_eq_self) simp_all
  finally show ?thesis .
qed

lemma sint_long_pred:
  assumes "- (2 ^ 63) < sint (x::long)"
  shows "sint (x - 1) = sint x - 1"
proof -
  have upper: "sint x < 2 ^ 63"
    using sint_lt [of x] by simp
  have "sint (x - 1) = signed_take_bit 63 (sint x - 1)"
    by (simp add: sint_word_ariths)
  also have "\<dots> = sint x - 1"
    using assms upper by (intro signed_take_bit_int_eq_self) simp_all
  finally show ?thesis .
qed

lemma long_to_int_minus_one: "long_to_int (- 1) = - 1"
  unfolding long_to_int_def by transfer simp

lemma FakerLevel_disable: "FakerLevel (vgl_disableFaker t) = FakerLevel t + 1"
  by (simp add: vgl_disableFaker_def thread_local_accessors)

lemma FakerLevel_enable: "FakerLevel (vgl_enableFaker t) = FakerLevel t - 1"
  by (simp add: vgl_enableFaker_def thread_local_accessors)

lemma ExcludeCurrent_disable: "ExcludeCurrent (vgl_disableFaker t)"
  by (simp add: vgl_disableFaker_def thread_local_accessors)

lemma ExcludeCurrent_enable: "\<not> ExcludeCurrent (vgl_enableFaker t)"
  by (simp add: vgl_enableFaker_def thread_local_accessors)

text \<open>
  Claim C4.  For every per-thread state with interception depth \<open>d\<close> and any exclude
  flag: \<open>_vgl_disableFaker\<close> stores \<open>d + 1\<close> and sets the exclude flag;
  \<open>_vgl_enableFaker\<close> stores \<open>d - 1\<close> and the exclude flag is clear whenever the
  resulting depth is zero or below.  The sums are those of the C type \<open>long\<close>; read
  as integers they are \<open>d + 1\<close> and \<open>d - 1\<close> everywhere except at the two ends of
  the range of \<open>long\<close>.  Neither operation has an error outcome, and the depth goes
  below zero like any other value.  (The source clears the flag on every enable,
  whatever the depth, which covers the case the claim names.)
\<close>

theorem disable_enable_faker_effect:
  "FakerLevel (vgl_disableFaker t) = FakerLevel t + 1
   \<and> (sint (FakerLevel t) < 2 ^ 63 - 1 \<longrightarrow>
        sint (FakerLevel (vgl_disableFaker t)) = sint (FakerLevel t) + 1)
   \<and> ExcludeCurrent (vgl_disableFaker t)
   \<and> FakerLevel (vgl_enableFaker t) = FakerLevel t - 1
   \<and> (- (2 ^ 63) < sint (FakerLevel t) \<longrightarrow>
        sint (FakerLevel (vgl_enableFaker t)) = sint (FakerLevel t) - 1)
   \<and> (sint (FakerLevel (vgl_enableFaker t)) \<le> 0 \<longrightarrow>
        \<not> ExcludeCurrent (vgl_enableFaker t))"
  using sint_long_succ [of "FakerLevel t"] sint_long_pred [of "FakerLevel t"]
  by (simp add: FakerLevel_disable FakerLevel_enable ExcludeCurrent_disable
      ExcludeCurrent_enable)

theorem disable_enable_faker_effect_witness:
  "sint (FakerLevel thread_defaults) < 2 ^ 63 - 1
   \<and> - (2 ^ 63) < sint (FakerLevel thread_defaults)
   \<and> sint (FakerLevel (vgl_enableFaker thread_defaults)) \<le> 0
   \<and> sint (FakerLevel (vgl_disableFaker thread_defaults)) = 1
   \<and> ExcludeCurrent (vgl_disableFaker thread_defaults)
   \<and> sint (FakerLevel (vgl_enableFaker thread_defaults)) = - 1
   \<and> \<not> ExcludeCurrent (vgl_enableFaker thread_defaults)"
  using disable_enable_faker_effect [of thread_defaults]
  by (simp add: thread_defaults_def)

text \<open>
  Claim C9.  For every per-thread state, \<open>_vgl_disableFaker\<close> followed by
  \<open>_vgl_enableFaker\<close> restores \<open>FakerLevel\<close> to its original value and leaves
  \<open>ExcludeCurrent\<close> false.  Hence the pair changes the state exactly when
  \<open>ExcludeCurrent\<close> was true before: it is the identity on the depth counter, not
  on the exclude flag.
\<close>

theorem disable_then_enable:
  "FakerLevel (vgl_enableFaker (vgl_disableFaker t)) = FakerLevel t
   \<and> \<not> ExcludeCurrent (vgl_enableFaker (vgl_disableFaker t))
   \<and> (ExcludeCurrent t \<longrightarrow> vgl_enableFaker (vgl_disableFaker t) \<noteq> t)
   \<and> (\<not> ExcludeCurrent t \<longrightarrow> vgl_enableFaker (vgl_disableFaker t) = t)"
proof -
  let ?t' = "vgl_enableFaker (vgl_disableFaker t)"
  have level: "FakerLevel ?t' = FakerLevel t"
    by (simp add: FakerLevel_enable FakerLevel_disable)
  have flag: "\<not> ExcludeCurrent ?t'"
    by (rule ExcludeCurrent_enable)
  have changed: "?t' \<noteq> t" if "ExcludeCurrent t"
  proof
    assume "?t' = t"
    then have "ExcludeCurrent ?t' = ExcludeCurrent t" by simp
    with flag that show False by simp
  qed
  have same: "?t' = t" if "\<not> ExcludeCurrent t"
    using that by (simp add: vgl_enableFaker_def vgl_disableFaker_def thread_local_accessors)
  from level flag changed same show ?thesis by blast
qed

theorem disable_then_enable_witness:
  "ExcludeCurrent (thread_defaults\<lparr>FakerLevel := 2, ExcludeCurrent := True\<rparr>)
   \<and> FakerLevel (vgl_enableFaker (vgl_disableFaker
        (thread_defaults\<lparr>FakerLevel := 2, ExcludeCurrent := True\<rparr>))) = 2
   \<and> \<not> ExcludeCurrent (vgl_enableFaker (vgl_disableFaker
        (thread_defaults\<lparr>FakerLevel := 2, ExcludeCurrent := True\<rparr>)))
   \<and> vgl_enableFaker (vgl_disableFaker
        (thread_defaults\<lparr>FakerLevel := 2, ExcludeCurrent := True\<rparr>))
      \<noteq> thread_defaults\<lparr>FakerLevel := 2, ExcludeCurrent := True\<rparr>
   \<and> \<not> ExcludeCurrent thread_defaults
   \<and> vgl_enableFaker (vgl_disableFaker thread_defaults) = thread_defaults"
  using disable_then_enable [of "thread_defaults\<lparr>FakerLevel := 2, ExcludeCurrent := True\<rparr>"]
    disable_then_enable [of thread_defaults]
  by (simp add: thread_defaults_def)

text \<open>
  Claim C10.  \<open>_vgl_getAutotestColor\<close> and \<open>_vgl_getAutotestFrame\<close> return \<open>-1\<close>
  whenever \<open>dpy\<close> differs from the thread's \<open>AutotestDisplay\<close> or \<open>d\<close> differs from
  its \<open>AutotestDrawable\<close>; under the thread-local defaults both return \<open>-1\<close> for
  every non-null display.
\<close>

theorem autotest_mismatch:
  "(dpy \<noteq> AutotestDisplay t \<or> d \<noteq> AutotestDrawable t \<longrightarrow>
      vgl_getAutotestColor t dpy d right = - 1 \<and> vgl_getAutotestFrame t dpy d = - 1)
   \<and> (dpy \<noteq> NULL \<longrightarrow>
      vgl_getAutotestColor thread_defaults dpy d right = - 1
      \<and> vgl_getAutotestFrame thread_defaults dpy d = - 1)"
  by (auto simp add: vgl_getAutotestColor_def vgl_getAutotestFrame_def
      thread_local_accessors thread_defaults_def)

theorem autotest_mismatch_witness:
  "(7::nat) \<noteq> AutotestDisplay (thread_defaults\<lparr>AutotestDisplay := 5, AutotestColor := 3\<rparr>)
   \<and> (7::nat) \<noteq> NULL
   \<and> vgl_getAutotestColor (thread_defaults\<lparr>AutotestDisplay := 5, AutotestColor := 3\<rparr>) 7 0 0 = - 1
   \<and> vgl_getAutotestFrame (thread_defaults\<lparr>AutotestDisplay := 5, AutotestColor := 3\<rparr>) 7 0 = - 1
   \<and> vgl_getAutotestColor thread_defaults 7 0 1 = - 1
   \<and> vgl_getAutotestFrame thread_defaults 7 0 = - 1"
  using autotest_mismatch [of 7 "thread_defaults\<lparr>AutotestDisplay := 5, AutotestColor := 3\<rparr>" 0 0]
    autotest_mismatch [of 7 thread_defaults 0 1]
  by (simp add: thread_defaults_def NULL_def)

section \<open>Properties of the excluded-display check\<close>

lemma strcasecmp_zero_iff: "strcasecmp a b = 0 \<longleftrightarrow> map tolower a = map tolower b"
  by (induction a b rule: strcasecmp.induct) auto

lemma in_dpy_delims: "c \<in> set dpy_delims \<longleftrightarrow> is_separator c"
  by (auto simp add: dpy_delims_def is_separator_def)

lemma list_tokens_Nil: "list_tokens [] = []"
  by (simp add: list_tokens_def)

lemma list_tokens_separator: "is_separator c \<Longrightarrow> list_tokens (c # cs) = list_tokens cs"
  by (simp add: list_tokens_def)

lemma list_tokens_dropWhile: "list_tokens (dropWhile is_separator s) = list_tokens s"
  by (induction s) (simp_all add: list_tokens_separator)

lemma split_fields_token:
  "split_fields s =
     takeWhile (\<lambda>c. \<not> is_separator c) s
     # (case dropWhile (\<lambda>c. \<not> is_separator c) s of [] \<Rightarrow> [] | _ # r \<Rightarrow> split_fields r)"
proof (induction s)
  case Nil
  show ?case by simp
next
  case (Cons c cs)
  show ?case
  proof (cases "is_separator c")
    case True
    then show ?thesis by simp
  next
    case False
    with Cons show ?thesis by simp
  qed
qed

lemma list_tokens_token:
  assumes "s \<noteq> []" and "\<not> is_separator (hd s)"
  shows "list_tokens s =
     takeWhile (\<lambda>c. \<not> is_separator c) s
     # list_tokens (drop 1 (dropWhile (\<lambda>c. \<not> is_separator c) s))"
proof -
  define t where "t = takeWhile (\<lambda>c. \<not> is_separator c) s"
  define d where "d = dropWhile (\<lambda>c. \<not> is_separator c) s"
  from assms have tw: "t \<noteq> []"
    unfolding t_def by (cases s) auto
  have fields: "split_fields s = t # (case d of [] \<Rightarrow> [] | _ # r \<Rightarrow> split_fields r)"
    unfolding t_def d_def by (rule split_fields_token)
  have rest: "filter (\<lambda>t. t \<noteq> []) (case d of [] \<Rightarrow> [] | _ # r \<Rightarrow> split_fields r)
              = list_tokens (drop 1 d)"
    by (cases d) (simp_all add: list_tokens_def)
  have "list_tokens s = t # list_tokens (drop 1 d)"
    using tw rest by (simp add: list_tokens_def fields)
  then show ?thesis
    unfolding t_def d_def .
qed

lemma strtok_None_unfold:
  "strtok None dpy_delims s =
     (if dropWhile is_separator s = [] then (None, [])
      else (Some (takeWhile (\<lambda>c. \<not> is_separator c) (dropWhile is_separator s)),
            drop 1 (dropWhile (\<lambda>c. \<not> is_separator c) (dropWhile is_separator s))))"
  by (simp add: strtok_def Let_def in_dpy_delims)

lemma strtok_None_tokens:
  assumes "strtok None dpy_delims s = (None, r)"
  shows "list_tokens s = []"
proof -
  from assms have "dropWhile is_separator s = []"
    unfolding strtok_None_unfold by (simp split: if_splits)
  then have "list_tokens (dropWhile is_separator s) = list_tokens []"
    by (rule arg_cong)
  then show ?thesis
    unfolding list_tokens_dropWhile list_tokens_Nil .
qed

lemma strtok_Some_tokens:
  assumes "strtok None dpy_delims s = (Some t, r)"
  shows "list_tokens s = t # list_tokens r"
proof -
  define s1 where "s1 = dropWhile is_separator s"
  from assms have ne: "s1 \<noteq> []"
    and t: "t = takeWhile (\<lambda>c. \<not> is_separator c) s1"
    and r: "r = drop 1 (dropWhile (\<lambda>c. \<not> is_separator c) s1)"
    unfolding s1_def strtok_None_unfold by (simp_all split: if_splits)
  from ne have "\<not> is_separator (hd s1)"
    unfolding s1_def by (rule hd_dropWhile)
  with ne have "list_tokens s1 = t # list_tokens r"
    unfolding t r by (rule list_tokens_token)
  then show ?thesis
    unfolding s1_def by (simp add: list_tokens_dropWhile)
qed

lemma strtok_Some_eq_None: "strtok (Some s) delim saved = strtok None delim s"
  by (simp add: strtok_def)

lemma excluded_loop_None: "\<not> excluded_loop name None saved"
  by (subst excluded_loop.simps) simp

lemma excluded_loop_tokens:
  "excluded_loop name excluded saved \<longleftrightarrow>
     (case excluded of None \<Rightarrow> False
      | Some e \<Rightarrow> list_ex (\<lambda>t. equal_ignoring_case t name) (e # list_tokens saved))"
proof (induction name excluded saved rule: excluded_loop.induct)
  case (1 name excluded saved)
  show ?case
  proof (cases excluded)
    case None
    then show ?thesis by (simp add: excluded_loop_None)
  next
    case (Some e)
    show ?thesis
    proof (cases "strcasecmp name e = 0")
      case True
      then have "equal_ignoring_case e name"
        by (simp add: strcasecmp_zero_iff equal_ignoring_case_def)
      moreover from Some True have "excluded_loop name excluded saved"
        by (subst excluded_loop.simps) simp
      ultimately show ?thesis using Some by simp
    next
      case False
      then have ne: "\<not> equal_ignoring_case e name"
        by (auto simp add: strcasecmp_zero_iff equal_ignoring_case_def)
      obtain excluded' saved' where st: "strtok None dpy_delims saved = (excluded', saved')"
        by (cases "strtok None dpy_delims saved")
      from "1.IH" [OF Some False st [symmetric]]
      have IH: "excluded_loop name excluded' saved' \<longleftrightarrow>
        (case excluded' of None \<Rightarrow> False
         | Some e' \<Rightarrow> list_ex (\<lambda>t. equal_ignoring_case t name) (e' # list_tokens saved'))" .
      have step: "excluded_loop name excluded saved = excluded_loop name excluded' saved'"
        using Some False st by (subst excluded_loop.simps) simp
      show ?thesis
      proof (cases excluded')
        case None
        with st have "list_tokens saved = []"
          by (auto dest: strtok_None_tokens)
        with None IH step Some ne show ?thesis by (simp add: excluded_loop_None)
      next
        case (Some e')
        with st have "list_tokens saved = e' # list_tokens saved'"
          by (auto dest: strtok_Some_tokens)
        with Some IH step \<open>excluded = Some e\<close> ne show ?thesis by simp
      qed
    qed
  qed
qed

lemma isDisplayStringExcluded_tokens:
  "isDisplayStringExcluded excludeddpys name
     \<longleftrightarrow> (\<exists>t \<in> set (list_tokens excludeddpys). equal_ignoring_case t name)"
proof (cases "strtok None dpy_delims excludeddpys")
  case (Pair excluded saved)
  then have call: "isDisplayStringExcluded excludeddpys name = excluded_loop name excluded saved"
    by (simp add: isDisplayStringExcluded_def strtok_Some_eq_None)
  show ?thesis
  proof (cases excluded)
    case None
    with Pair have "list_tokens excludeddpys = []"
      by (auto dest: strtok_None_tokens)
    with None call show ?thesis
      by (simp add: excluded_loop_None)
  next
    case (Some e)
    with Pair have "list_tokens excludeddpys = e # list_tokens saved"
      by (auto dest: strtok_Some_tokens)
    with Some call show ?thesis
      by (simp add: excluded_loop_tokens list_ex_iff)
  qed
qed

text \<open>
  Claim C6.  \<open>isDisplayStringExcluded\<close> splits the configured list at commas, spaces
  and tabs and compares each token with the candidate name ignoring case: for every
  list and every name it returns true if and only if some token of the list equals
  the name ignoring case.  In particular \<open>HOST1:0.0\<close> is a member of
  \<open>host1:0.0, host2:1.0\<close> and \<open>host3:0.0\<close> is not.
\<close>

theorem isDisplayStringExcluded_membership:
  "isDisplayStringExcluded excludeddpys name = excluded_member_spec excludeddpys name
   \<and> isDisplayStringExcluded ''host1:0.0, host2:1.0'' ''HOST1:0.0''
   \<and> \<not> isDisplayStringExcluded ''host1:0.0, host2:1.0'' ''host3:0.0''"
proof (intro conjI)
  show "isDisplayStringExcluded excludeddpys name = excluded_member_spec excludeddpys name"
    by (simp add: isDisplayStringExcluded_tokens excluded_member_spec_def list_ex_iff)
next
  show "isDisplayStringExcluded ''host1:0.0, host2:1.0'' ''HOST1:0.0''"
    by code_simp
next
  show "\<not> isDisplayStringExcluded ''host1:0.0, host2:1.0'' ''host3:0.0''"
    by code_simp
qed

section \<open>Properties of shutdown and teardown\<close>

lemmas example_defs =
  example_state_def initial_state_def NULL_def safeExit_def cleanup_def cleanup_hashes_def
  kill_def kill_events_def isAlloc_def kill_if_alloc_def free_glExtensions_def
  unloadSymbols_def fconfig_deleteinstance_def GlobalCleanup_destructor_def
  teardown_events_def hash_classes_def

lemma kill_fields:
  "hashes (kill h s) = (hashes s)(h := None)"
  "trace (kill h s) = trace s @ kill_events h (hashes s h)"
  "deadYet (kill h s) = deadYet s"
  "glExtensions (kill h s) = glExtensions s"
  "dpy3D (kill h s) = dpy3D s"
  "init_done (kill h s) = init_done s"
  by (simp_all add: kill_def)

lemma kill_not_alloc:
  assumes "\<not> isAlloc h s"
  shows "kill h s = s"
proof -
  from assms have "(hashes s)(h := None) = hashes s"
    by (auto simp add: isAlloc_def)
  with assms show ?thesis
    by (simp add: kill_def kill_events_def isAlloc_def)
qed

lemma kill_if_alloc_kill: "kill_if_alloc = kill"
  by (intro ext) (simp add: kill_if_alloc_def kill_not_alloc)

lemma cleanup_hashes_fold:
  "cleanup_hashes EGLBACKEND s = fold kill (hash_classes EGLBACKEND) s"
  unfolding kill_if_alloc_kill [symmetric]
  by (simp add: cleanup_hashes_def hash_classes_def kill_if_alloc_def Let_def)

lemma distinct_hash_classes: "distinct (hash_classes EGLBACKEND)"
  by (simp add: hash_classes_def)

lemma fold_kill_hashes:
  "hashes (fold kill hs s) = (\<lambda>h. if h \<in> set hs then None else hashes s h)"
proof (induction hs arbitrary: s)
  case Nil
  show ?case by simp
next
  case (Cons a hs)
  have "hashes (fold kill (a # hs) s) = hashes (fold kill hs (kill a s))"
    by simp
  also have "\<dots> = (\<lambda>h. if h \<in> set hs then None else hashes (kill a s) h)"
    by (rule Cons.IH)
  also have "\<dots> = (\<lambda>h. if h \<in> set (a # hs) then None else hashes s h)"
    by (auto simp add: kill_fields)
  finally show ?case .
qed

lemma fold_kill_trace:
  "distinct hs \<Longrightarrow>
     trace (fold kill hs s)
       = trace s @ concat (map (\<lambda>h. kill_events h (hashes s h)) hs)"
proof (induction hs arbitrary: s)
  case Nil
  show ?case by simp
next
  case (Cons a hs)
  then have d: "distinct hs" and a: "a \<notin> set hs" by simp_all
  have same: "map (\<lambda>h. kill_events h (hashes (kill a s) h)) hs
              = map (\<lambda>h. kill_events h (hashes s h)) hs"
    using a by (auto simp add: kill_fields)
  have "trace (fold kill (a # hs) s) = trace (fold kill hs (kill a s))"
    by simp
  also have "\<dots> = trace (kill a s)
      @ concat (map (\<lambda>h. kill_events h (hashes (kill a s) h)) hs)"
    by (rule Cons.IH [OF d])
  also have "\<dots> = trace (kill a s)
      @ concat (map (\<lambda>h. kill_events h (hashes s h)) hs)"
    by (simp only: same)
  also have "\<dots> = trace s @ concat (map (\<lambda>h. kill_events h (hashes s h)) (a # hs))"
    by (simp add: kill_fields(2))
  finally show ?case .
qed

lemma fold_kill_globals:
  "deadYet (fold kill hs s) = deadYet s
   \<and> glExtensions (fold kill hs s) = glExtensions s
   \<and> dpy3D (fold kill hs s) = dpy3D s
   \<and> init_done (fold kill hs s) = init_done s"
  by (induction hs arbitrary: s) (simp_all add: kill_fields)

lemma kill_kill: "kill h (kill h s) = kill h s"
  by (simp add: kill_def kill_events_def)

lemma isAlloc_kill: "\<not> isAlloc h (kill h s)"
  by (simp add: isAlloc_def kill_def)

lemma isAlloc_cleanup_hashes:
  "h \<in> set (hash_classes EGLBACKEND) \<Longrightarrow> \<not> isAlloc h (cleanup_hashes EGLBACKEND s)"
  by (simp add: isAlloc_def cleanup_hashes_fold fold_kill_hashes)

lemma fold_kill_noop:
  "\<forall>h \<in> set hs. \<not> isAlloc h s \<Longrightarrow> fold kill hs s = s"
  by (induction hs) (simp_all add: kill_not_alloc)

lemma cleanup_hashes_twice:
  "cleanup_hashes EGLBACKEND (cleanup_hashes EGLBACKEND s) = cleanup_hashes EGLBACKEND s"
proof -
  have "\<forall>h \<in> set (hash_classes EGLBACKEND). \<not> isAlloc h (cleanup_hashes EGLBACKEND s)"
    by (simp add: isAlloc_cleanup_hashes)
  then have "fold kill (hash_classes EGLBACKEND) (cleanup_hashes EGLBACKEND s)
             = cleanup_hashes EGLBACKEND s"
    by (rule fold_kill_noop)
  then show ?thesis
    by (simp add: cleanup_hashes_fold [of EGLBACKEND "cleanup_hashes EGLBACKEND s"])
qed

text \<open>
  Claim C3.  Registry kill is idempotent and guarded by the allocation check: for
  every registry, the teardown line (kill only when \<open>isAlloc()\<close> reports the
  registry allocated) leaves the registry not allocated, a second run changes
  nothing (so nothing is released a second time), and on a registry that was never
  allocated the line changes nothing at all; the same holds for the whole sequence
  of lines 55-64.  No step has an error outcome.
\<close>

theorem kill_if_alloc_idempotent:
  "\<not> isAlloc h (kill_if_alloc h s)
   \<and> kill_if_alloc h (kill_if_alloc h s) = kill_if_alloc h s
   \<and> kill h (kill h s) = kill h s
   \<and> (\<not> isAlloc h s \<longrightarrow> kill_if_alloc h s = s \<and> kill h s = s)
   \<and> cleanup_hashes EGLBACKEND (cleanup_hashes EGLBACKEND s) = cleanup_hashes EGLBACKEND s
   \<and> (\<forall>h' \<in> set (hash_classes EGLBACKEND). \<not> isAlloc h' (cleanup_hashes EGLBACKEND s))"
  by (simp add: kill_if_alloc_kill kill_kill isAlloc_kill kill_not_alloc
      cleanup_hashes_twice isAlloc_cleanup_hashes)

theorem kill_if_alloc_idempotent_witness:
  "\<not> isAlloc PixmapHash initial_state
   \<and> kill_if_alloc PixmapHash initial_state = initial_state
   \<and> kill PixmapHash initial_state = initial_state
   \<and> WindowHash \<in> set (hash_classes True)
   \<and> isAlloc WindowHash example_state
   \<and> \<not> isAlloc WindowHash (cleanup_hashes True example_state)
   \<and> cleanup_hashes True (cleanup_hashes True example_state) = cleanup_hashes True example_state
   \<and> trace (cleanup_hashes True example_state)
       = [ReloadEnv, ReleaseTable ContextHash, ReleaseEntry WindowHash 7,
          ReleaseEntry WindowHash 9, ReleaseTable WindowHash]"
  using kill_if_alloc_idempotent [of PixmapHash initial_state True]
    kill_if_alloc_idempotent [of WindowHash example_state True]
  by (simp add: example_defs)

lemma trace_cleanup:
  "trace (cleanup EGLBACKEND s)
     = trace s @ concat (map (\<lambda>h. kill_events h (hashes s h)) (hash_classes EGLBACKEND))
       @ [FreeGlExtensions (glExtensions s), UnloadSymbols]"
  by (simp add: cleanup_def unloadSymbols_def free_glExtensions_def cleanup_hashes_fold
      fold_kill_trace [OF distinct_hash_classes] fold_kill_globals)

lemma safeExit_alive:
  assumes "\<not> deadYet s"
  shows "snd (safeExit EGLBACKEND retcode s) = ProcessExit retcode"
    and "deadYet (fst (safeExit EGLBACKEND retcode s))"
    and "trace (fst (safeExit EGLBACKEND retcode s)) = trace s @ teardown_events EGLBACKEND s"
    and "h \<in> set (hash_classes EGLBACKEND) \<Longrightarrow> \<not> isAlloc h (fst (safeExit EGLBACKEND retcode s))"
proof -
  show "snd (safeExit EGLBACKEND retcode s) = ProcessExit retcode"
    using assms by (simp add: safeExit_def Let_def)
  show "deadYet (fst (safeExit EGLBACKEND retcode s))"
    using assms
    by (simp add: safeExit_def Let_def fconfig_deleteinstance_def cleanup_def
        unloadSymbols_def free_glExtensions_def cleanup_hashes_fold fold_kill_globals)
  show "trace (fst (safeExit EGLBACKEND retcode s)) = trace s @ teardown_events EGLBACKEND s"
    using assms
    by (simp add: safeExit_def Let_def fconfig_deleteinstance_def trace_cleanup
        teardown_events_def)
  show "\<not> isAlloc h (fst (safeExit EGLBACKEND retcode s))"
    if "h \<in> set (hash_classes EGLBACKEND)"
    using assms that isAlloc_cleanup_hashes [of h EGLBACKEND "s\<lparr>deadYet := True\<rparr>"]
    by (simp add: safeExit_def Let_def fconfig_deleteinstance_def cleanup_def
        unloadSymbols_def free_glExtensions_def isAlloc_def)
qed

lemma safeExit_dead: "deadYet s \<Longrightarrow> safeExit EGLBACKEND retcode s = (s, ThreadExit 0)"
  by (simp add: safeExit_def Let_def)

lemma count_kill_events_table:
  "count_list (kill_events h r) (ReleaseTable h') = (if h = h' \<and> r \<noteq> None then 1 else 0)"
  by (cases r) (auto simp add: kill_events_def count_list_0_iff)

lemma count_concat_kill_events:
  "distinct hs \<Longrightarrow>
   count_list (concat (map (\<lambda>h. kill_events h (hashes s h)) hs)) (ReleaseTable h')
     = (if h' \<in> set hs \<and> hashes s h' \<noteq> None then 1 else 0)"
  by (induction hs) (auto simp add: count_kill_events_table)

lemma count_kill_events_other:
  "e \<in> {UnloadSymbols, DeleteConfigInstance} \<Longrightarrow> count_list (kill_events h r) e = 0"
  by (cases r) (auto simp add: kill_events_def count_list_0_iff)

lemma count_concat_kill_events_other:
  "e \<in> {UnloadSymbols, DeleteConfigInstance} \<Longrightarrow>
   count_list (concat (map (\<lambda>h. kill_events h (hashes s h)) hs)) e = 0"
  by (induction hs) (simp_all add: count_kill_events_other)

lemma count_teardown_events:
  "count_list (teardown_events EGLBACKEND s) (ReleaseTable h)
     = (if h \<in> set (hash_classes EGLBACKEND) \<and> isAlloc h s then 1 else 0)"
  "count_list (teardown_events EGLBACKEND s) UnloadSymbols = 1"
  "count_list (teardown_events EGLBACKEND s) DeleteConfigInstance = 1"
  by (simp_all add: teardown_events_def isAlloc_def
      count_concat_kill_events [OF distinct_hash_classes] count_concat_kill_events_other)

text \<open>
  Claim C1.  For every call \<open>safeExit(retcode)\<close>: if \<open>deadYet\<close> is false when it is
  checked under the critical section, the call sets \<open>deadYet\<close>, performs the global
  teardown exactly once (one release of every allocated registry of the build, after
  which none of them is allocated, one \<open>unloadSymbols\<close>, one deletion of the
  configuration instance) and ends the process with exit code \<open>retcode\<close>; if
  \<open>deadYet\<close> is already true, the call changes nothing, performs no teardown and
  ends the calling thread only.
\<close>

theorem safeExit_shutdown:
  "(\<not> deadYet s \<longrightarrow>
      snd (safeExit EGLBACKEND retcode s) = ProcessExit retcode
      \<and> deadYet (fst (safeExit EGLBACKEND retcode s))
      \<and> trace (fst (safeExit EGLBACKEND retcode s)) = trace s @ teardown_events EGLBACKEND s
      \<and> count_list (teardown_events EGLBACKEND s) UnloadSymbols = 1
      \<and> count_list (teardown_events EGLBACKEND s) DeleteConfigInstance = 1
      \<and> (\<forall>h \<in> set (hash_classes EGLBACKEND).
            count_list (teardown_events EGLBACKEND s) (ReleaseTable h)
              = (if isAlloc h s then 1 else 0)
            \<and> \<not> isAlloc h (fst (safeExit EGLBACKEND retcode s))))
   \<and> (deadYet s \<longrightarrow> safeExit EGLBACKEND retcode s = (s, ThreadExit 0))"
  by (simp add: safeExit_alive safeExit_dead count_teardown_events)


theorem safeExit_shutdown_witness:
  "\<not> deadYet example_state
   \<and> WindowHash \<in> set (hash_classes False)
   \<and> snd (safeExit False 3 example_state) = ProcessExit 3
   \<and> trace (fst (safeExit False 3 example_state))
       = [ReloadEnv, ReleaseTable ContextHash, ReleaseEntry WindowHash 7,
          ReleaseEntry WindowHash 9, ReleaseTable WindowHash, FreeGlExtensions 4096,
          UnloadSymbols, DeleteConfigInstance]
   \<and> \<not> isAlloc WindowHash (fst (safeExit False 3 example_state))
   \<and> deadYet (fst (safeExit False 3 example_state))
   \<and> safeExit False 5 (fst (safeExit False 3 example_state))
       = (fst (safeExit False 3 example_state), ThreadExit 0)"
  using safeExit_shutdown [of example_state False 3]
    safeExit_shutdown [of "fst (safeExit False 3 example_state)" False 5]
  by (simp add: example_defs)

lemma deadYet_init3D: "deadYet s \<Longrightarrow> deadYet (fst (init3D EGLBACKEND opened s))"
  by (simp add: init3D_def init_def fconfig_reloadenv_def Let_def safeExit_dead)

lemma deadYet_safeExit: "deadYet (fst (safeExit EGLBACKEND retcode s))"
  by (cases "deadYet s") (simp_all add: safeExit_alive safeExit_dead)

lemma deadYet_destructor: "deadYet (GlobalCleanup_destructor s)"
  by (simp add: GlobalCleanup_destructor_def)

lemma faker_step_deadYet:
  assumes "faker_step EGLBACKEND s s'" and "deadYet s"
  shows "deadYet s'"
  using assms
proof (induction rule: faker_step.induct)
  case (step_safeExit s retcode)
  show ?case by (rule deadYet_safeExit)
next
  case (step_destructor s)
  show ?case by (rule deadYet_destructor)
next
  case (step_init3D s opened)
  then show ?case by (simp add: deadYet_init3D)
next
  case (step_other s' s)
  then show ?case by simp
qed

lemma faker_steps_deadYet:
  assumes "(faker_step EGLBACKEND)\<^sup>*\<^sup>* s s'" and "deadYet s"
  shows "deadYet s'"
  using assms
  by (induction rule: rtranclp_induct) (auto intro: faker_step_deadYet)

text \<open>
  Claim C2.  The shutdown flag is monotone: \<open>deadYet\<close> starts false; \<open>safeExit\<close> and
  the destructor of \<open>globalCleanup\<close> leave it true; and once it is true it stays
  true along every sequence of steps of the program.
\<close>

theorem deadYet_monotone:
  "\<not> deadYet initial_state
   \<and> deadYet (fst (safeExit EGLBACKEND retcode s))
   \<and> deadYet (GlobalCleanup_destructor s)
   \<and> ((faker_step EGLBACKEND)\<^sup>*\<^sup>* s s' \<longrightarrow> deadYet s \<longrightarrow> deadYet s')"
  using faker_steps_deadYet [of EGLBACKEND s s']
  by (simp add: deadYet_safeExit deadYet_destructor initial_state_def)

theorem deadYet_monotone_witness:
  "(faker_step False)\<^sup>*\<^sup>* (fst (safeExit False 1 initial_state))
      (fst (init3D False 0 (GlobalCleanup_destructor (fst (safeExit False 1 initial_state)))))
   \<and> deadYet (fst (safeExit False 1 initial_state))
   \<and> deadYet (fst (init3D False 0 (GlobalCleanup_destructor (fst (safeExit False 1 initial_state)))))"
proof -
  let ?s1 = "fst (safeExit False 1 initial_state)"
  let ?s2 = "GlobalCleanup_destructor ?s1"
  let ?s3 = "fst (init3D False 0 ?s2)"
  have "faker_step False ?s1 ?s2" by (rule step_destructor)
  moreover have "faker_step False ?s2 ?s3" by (rule step_init3D)
  ultimately have steps: "(faker_step False)\<^sup>*\<^sup>* ?s1 ?s3" by auto
  with deadYet_monotone [where EGLBACKEND = False and s = ?s1 and s' = ?s3 and retcode = 1]
    deadYet_monotone [where EGLBACKEND = False and s = initial_state and retcode = 1]
  show ?thesis by simp
qed

lemma safeExit_calls_dead: "deadYet s \<Longrightarrow> safeExit_calls EGLBACKEND retcodes s = s"
  by (induction retcodes) (simp_all add: safeExit_calls_def safeExit_dead)

lemma safeExit_calls_Nil: "safeExit_calls EGLBACKEND [] s = s"
  by (simp add: safeExit_calls_def)

lemma safeExit_calls_Cons:
  "safeExit_calls EGLBACKEND (retcode # retcodes) s = fst (safeExit EGLBACKEND retcode s)"
proof -
  have "safeExit_calls EGLBACKEND (retcode # retcodes) s
        = safeExit_calls EGLBACKEND retcodes (fst (safeExit EGLBACKEND retcode s))"
    by (simp add: safeExit_calls_def)
  then show ?thesis
    by (simp add: safeExit_calls_dead deadYet_safeExit)
qed

lemma trace_destructor:
  "trace (GlobalCleanup_destructor s) = trace s @ [DeleteConfigInstance]"
  by (simp add: GlobalCleanup_destructor_def fconfig_deleteinstance_def)

lemma hashes_destructor: "hashes (GlobalCleanup_destructor s) = hashes s"
  by (simp add: GlobalCleanup_destructor_def fconfig_deleteinstance_def)

lemma process_lifetime_eq:
  "process_lifetime EGLBACKEND early late s
     = GlobalCleanup_destructor (safeExit_calls EGLBACKEND early s)"
  by (simp add: process_lifetime_def safeExit_calls_dead deadYet_destructor)

text \<open>
  Claim C5, as the code has it.  The destructor of \<open>globalCleanup\<close> does not test
  \<open>deadYet\<close>: in every state it calls the deletion of the configuration instance,
  sets \<open>deadYet\<close> and leaves the registries alone.  So in a process execution that
  starts with \<open>deadYet\<close> false, the teardown of \<open>safeExit\<close> (\<open>cleanup\<close> and the
  deletion of the configuration instance) runs once if \<open>safeExit\<close> is called before
  the destructor and not at all otherwise, never twice; the destructor adds one
  more call of the deletion in both cases; without an early \<open>safeExit\<close> the
  registries are left as they were.
\<close>

theorem process_exit_teardown:
  "trace (GlobalCleanup_destructor s) = trace s @ [DeleteConfigInstance]
   \<and> hashes (GlobalCleanup_destructor s) = hashes s
   \<and> deadYet (GlobalCleanup_destructor s)
   \<and> deadYet (process_lifetime EGLBACKEND early late s)
   \<and> (\<not> deadYet s \<longrightarrow>
        trace (process_lifetime EGLBACKEND early late s)
          = trace s @ (if early = [] then [] else teardown_events EGLBACKEND s)
            @ [DeleteConfigInstance]
        \<and> count_list (teardown_events EGLBACKEND s) UnloadSymbols = 1
        \<and> (early = [] \<longrightarrow> hashes (process_lifetime EGLBACKEND early late s) = hashes s))"
proof (cases early)
  case Nil
  then show ?thesis
    by (simp add: process_lifetime_eq safeExit_calls_Nil trace_destructor hashes_destructor
        deadYet_destructor count_teardown_events)
next
  case (Cons retcode retcodes)
  then show ?thesis
    by (simp add: process_lifetime_eq safeExit_calls_Cons trace_destructor hashes_destructor
        deadYet_destructor count_teardown_events safeExit_alive)
qed

theorem process_exit_teardown_witness:
  "\<not> deadYet example_state
   \<and> trace (process_lifetime False [] [2] example_state) = [ReloadEnv, DeleteConfigInstance]
   \<and> hashes (process_lifetime False [] [2] example_state) = hashes example_state
   \<and> trace (process_lifetime False [3, 1] [2] example_state)
       = trace example_state @ teardown_events False example_state @ [DeleteConfigInstance]"
  using process_exit_teardown [of example_state False "[]" "[2]"]
    process_exit_teardown [of example_state False "[3, 1]" "[2]"]
  by (simp add: example_state_def)

text \<open>
  Claim C5 as stated fails.  In the execution in which \<open>safeExit\<close> is never called,
  from a state with an allocated window registry, \<open>cleanup\<close> does not run and the
  registry is still allocated after the destructor; in the execution with one call
  \<open>safeExit(3)\<close>, the deletion of the configuration instance is called twice.
\<close>

theorem process_exit_teardown_counterexample:
  "count_list (trace (process_lifetime False [] [] example_state)) UnloadSymbols \<noteq> 1
   \<and> count_list (trace (process_lifetime False [] [] example_state)) (ReleaseTable WindowHash) \<noteq> 1
   \<and> isAlloc WindowHash (process_lifetime False [] [] example_state)
   \<and> count_list (trace (process_lifetime False [3] [] example_state)) DeleteConfigInstance = 2"
  by (simp add: process_lifetime_def safeExit_calls_def example_defs)

section \<open>Properties of the test harness\<close>

lemma stricmp_ssl: "stricmp a ''-ssl'' = 0 \<longleftrightarrow> equal_ignoring_case a ''-ssl''"
  by (simp only: stricmp_def strcasecmp_zero_iff equal_ignoring_case_def)

lemma strnicmp_cl: "strnicmp a ''-cl'' 3 = 0 \<longleftrightarrow> equal_ignoring_case (take 3 a) ''-cl''"
proof -
  have "take 3 ''-cl'' = ''-cl''" by simp
  then show ?thesis
    by (simp only: strnicmp_def strncasecmp_def strcasecmp_zero_iff equal_ignoring_case_def)
qed

lemma scan_args_usessl:
  "fst (scan_args argv i usessl clientname)
     \<longleftrightarrow> usessl \<or> list_ex is_ssl (scanned_args (drop i argv))"
proof (induction argv i usessl clientname rule: scan_args.induct)
  case (1 argv i usessl clientname)
  show ?case
  proof (cases "i < length argv")
    case False
    then show ?thesis
      by (subst scan_args.simps) simp
  next
    case True
    define usessl' where "usessl' = (if stricmp (argv ! i) ''-ssl'' = 0 then True else usessl)"
    have u: "usessl' \<longleftrightarrow> usessl \<or> is_ssl (argv ! i)"
      by (auto simp add: usessl'_def stricmp_ssl)
    have dropi: "drop i argv = argv ! i # drop (Suc i) argv"
      using True by (simp add: Cons_nth_drop_Suc)
    show ?thesis
    proof (cases "strnicmp (argv ! i) ''-cl'' 3 = 0 \<and> int i < int (length argv) - 1")
      case skip: True
      then have next_ok: "Suc i < length argv" by auto
      have drop1: "drop (Suc i) argv = argv ! Suc i # drop (i + 2) argv"
        using next_ok by (simp add: Cons_nth_drop_Suc)
      have step: "scan_args argv i usessl clientname
                  = scan_args argv (i + 2) usessl' (Some (argv ! (i + 1)))"
        using True skip by (subst scan_args.simps) (simp add: usessl'_def)
      have IH: "fst (scan_args argv (i + 2) usessl' (Some (argv ! (i + 1))))
                \<longleftrightarrow> usessl' \<or> list_ex is_ssl (scanned_args (drop (i + 2) argv))"
        using "1.IH"(1) [OF True usessl'_def skip] .
      have "scanned_args (drop i argv) = argv ! i # scanned_args (drop (i + 2) argv)"
        using skip by (simp add: dropi drop1 strnicmp_cl)
      with step IH u show ?thesis by auto
    next
      case noskip: False
      have step: "scan_args argv i usessl clientname
                  = scan_args argv (i + 1) usessl' clientname"
        using True noskip by (subst scan_args.simps) (auto simp add: usessl'_def)
      have IH: "fst (scan_args argv (i + 1) usessl' clientname)
                \<longleftrightarrow> usessl' \<or> list_ex is_ssl (scanned_args (drop (i + 1) argv))"
        using "1.IH"(2) [OF True usessl'_def noskip] .
      have "scanned_args (drop i argv) = argv ! i # scanned_args (drop (Suc i) argv)"
      proof (cases "Suc i < length argv")
        case True
        then have drop1: "drop (Suc i) argv = argv ! Suc i # drop (i + 2) argv"
          by (simp add: Cons_nth_drop_Suc)
        from True noskip have "\<not> is_cl (argv ! i)"
          by (auto simp add: strnicmp_cl)
        then have "scanned_args (argv ! i # argv ! Suc i # drop (i + 2) argv)
            = argv ! i # scanned_args (argv ! Suc i # drop (i + 2) argv)"
          by simp
        then show ?thesis
          by (simp only: dropi drop1)
      next
        case False
        with \<open>i < length argv\<close> have "drop (Suc i) argv = []" by simp
        then show ?thesis by (simp add: dropi)
      qed
      with step IH u show ?thesis by auto
    qed
  qed
qed

lemma set_scanned_args: "set (scanned_args argv) \<subseteq> set argv"
  by (induction argv rule: scanned_args.induct) auto

lemma scanned_args_no_cl: "\<not> list_ex is_cl argv \<Longrightarrow> scanned_args argv = argv"
  by (induction argv rule: scanned_args.induct) auto

text \<open>
  Claim C8, as the code has it.  The port is the TLS default port if some argument
  that the option loop looks at equals \<open>-ssl\<close> ignoring case, and the plain default
  port otherwise; an argument taken as the value of a preceding \<open>-cl...\<close> option
  is not looked at.  So without any argument equal to \<open>-ssl\<close> the port is the plain
  one, and with such an argument and no \<open>-cl...\<close> option it is the TLS one.  When
  the two default ports are distinct (their values are set outside the sources),
  the chosen port tells the two cases apart.
\<close>

theorem harness_port_selection:
  "harness_port RR_DEFAULTPORT RR_DEFAULTSSLPORT argv
     = (if list_ex (\<lambda>a. equal_ignoring_case a ''-ssl'') (scanned_args argv)
        then RR_DEFAULTSSLPORT else RR_DEFAULTPORT)
   \<and> (\<not> list_ex (\<lambda>a. equal_ignoring_case a ''-ssl'') argv \<longrightarrow>
        harness_port RR_DEFAULTPORT RR_DEFAULTSSLPORT argv = RR_DEFAULTPORT)
   \<and> (list_ex (\<lambda>a. equal_ignoring_case a ''-ssl'') argv
        \<and> \<not> list_ex (\<lambda>a. equal_ignoring_case (take 3 a) ''-cl'') argv \<longrightarrow>
        harness_port RR_DEFAULTPORT RR_DEFAULTSSLPORT argv = RR_DEFAULTSSLPORT)
   \<and> (RR_DEFAULTPORT \<noteq> RR_DEFAULTSSLPORT \<longrightarrow>
        (harness_port RR_DEFAULTPORT RR_DEFAULTSSLPORT argv = RR_DEFAULTSSLPORT
         \<longleftrightarrow> list_ex (\<lambda>a. equal_ignoring_case a ''-ssl'') (scanned_args argv)))"
proof -
  have port: "harness_port RR_DEFAULTPORT RR_DEFAULTSSLPORT argv
     = (if list_ex is_ssl (scanned_args argv) then RR_DEFAULTSSLPORT else RR_DEFAULTPORT)"
    by (simp add: harness_port_def select_port_def scan_args_usessl)
  have absent: "\<not> list_ex is_ssl (scanned_args argv)" if "\<not> list_ex is_ssl argv"
    using that set_scanned_args [of argv] by (auto simp add: list_ex_iff)
  have present: "list_ex is_ssl (scanned_args argv)"
    if "list_ex is_ssl argv" and "\<not> list_ex is_cl argv"
    using that by (simp add: scanned_args_no_cl)
  from port absent present show ?thesis by auto
qed


theorem harness_port_selection_witness:
  "\<not> list_ex (\<lambda>a. equal_ignoring_case a ''-ssl'') [''prog'', ''5'', ''2'', ''-client'', ''host:0'']
   \<and> harness_port 4242 4243 [''prog'', ''5'', ''2'', ''-client'', ''host:0''] = 4242
   \<and> list_ex (\<lambda>a. equal_ignoring_case a ''-ssl'') [''prog'', ''5'', ''2'', ''-SSL'']
   \<and> \<not> list_ex (\<lambda>a. equal_ignoring_case (take 3 a) ''-cl'') [''prog'', ''5'', ''2'', ''-SSL'']
   \<and> (4242 :: port) \<noteq> 4243
   \<and> harness_port 4242 4243 [''prog'', ''5'', ''2'', ''-SSL''] = 4243"
proof -
  have a: "\<not> list_ex (\<lambda>a. equal_ignoring_case a ''-ssl'') [''prog'', ''5'', ''2'', ''-client'', ''host:0'']"
    by code_simp
  have b: "list_ex (\<lambda>a. equal_ignoring_case a ''-ssl'') [''prog'', ''5'', ''2'', ''-SSL'']"
    by code_simp
  have c: "\<not> list_ex (\<lambda>a. equal_ignoring_case (take 3 a) ''-cl'') [''prog'', ''5'', ''2'', ''-SSL'']"
    by code_simp
  have d: "(4242 :: port) \<noteq> 4243"
    by simp
  from a b c d
    harness_port_selection [of 4242 4243 "[''prog'', ''5'', ''2'', ''-client'', ''host:0'']"]
    harness_port_selection [of 4242 4243 "[''prog'', ''5'', ''2'', ''-SSL'']"]
  show ?thesis by blast
qed

text \<open>
  Claim C8 as stated fails: with the well-formed arguments
  \<open>prog 5 2 -client -ssl\<close> an argument equal to \<open>-ssl\<close> is present, but it is taken as
  the client name and the plain port is chosen (here with the ports 4242 and 4243).
\<close>

theorem harness_port_selection_counterexample:
  "\<not> args_malformed [''prog'', ''5'', ''2'', ''-client'', ''-ssl'']
   \<and> list_ex (\<lambda>a. equal_ignoring_case a ''-ssl'') [''prog'', ''5'', ''2'', ''-client'', ''-ssl'']
   \<and> harness_port 4242 4243 [''prog'', ''5'', ''2'', ''-client'', ''-ssl''] = 4242
   \<and> (4242 :: port) \<noteq> 4243"
proof (intro conjI)
  show "\<not> args_malformed [''prog'', ''5'', ''2'', ''-client'', ''-ssl'']"
    by code_simp
  show "list_ex (\<lambda>a. equal_ignoring_case a ''-ssl'') [''prog'', ''5'', ''2'', ''-client'', ''-ssl'']"
    by code_simp
  show "harness_port 4242 4243 [''prog'', ''5'', ''2'', ''-client'', ''-ssl''] = 4242"
    by code_simp
  show "(4242 :: port) \<noteq> 4243"
    by simp
qed


lemma send_frames_succeeds:
  assumes "\<forall>f' < nat frames. getbitmap env i f' = None \<and> sendframe env i f' = None"
  shows "send_frames env i f frames = (map (SendFrame i) [f..<nat frames], None)"
  using assms
proof (induction env i f frames rule: send_frames.induct)
  case (1 env i f frames)
  show ?case
  proof (cases "int f < frames")
    case False
    then show ?thesis
      by (subst send_frames.simps) simp
  next
    case True
    then have lt: "f < nat frames" by simp
    with "1.prems" have ok: "getbitmap env i f = None" "sendframe env i f = None"
      by simp_all
    have IH: "send_frames env i (f + 1) frames = (map (SendFrame i) [f + 1..<nat frames], None)"
      using "1.IH" [OF True ok] "1.prems" .
    have "[f..<nat frames] = f # [f + 1..<nat frames]"
      using lt by (simp add: upt_conv_Cons)
    with True ok IH show ?thesis
      by (subst send_frames.simps) simp
  qed
qed

lemma cycles_succeeds:
  assumes "\<forall>i' < nat iter. new_rrdisplayclient env i' = None
            \<and> (\<forall>f < nat frames. getbitmap env i' f = None \<and> sendframe env i' f = None)"
  shows "cycles env clientname p usessl frames i iter
         = (concat (map (cycle_events clientname p usessl frames) [i..<nat iter]), None)"
  using assms
proof (induction env clientname p usessl frames i iter rule: cycles.induct)
  case (1 env clientname p usessl frames i iter)
  show ?case
  proof (cases "int i < iter")
    case False
    then show ?thesis
      by (subst cycles.simps) simp
  next
    case True
    then have lt: "i < nat iter" by simp
    with "1.prems" have conn: "new_rrdisplayclient env i = None"
      and fr: "\<forall>f < nat frames. getbitmap env i f = None \<and> sendframe env i f = None"
      by simp_all
    have sf: "send_frames env i 0 frames = (map (SendFrame i) [0..<nat frames], None)"
      using fr by (rule send_frames_succeeds)
    have IH: "cycles env clientname p usessl frames (i + 1) iter
              = (concat (map (cycle_events clientname p usessl frames) [i + 1..<nat iter]), None)"
      using "1.IH" [OF True conn sf [symmetric] refl] "1.prems" .
    have "[i..<nat iter] = i # [i + 1..<nat iter]"
      using lt by (simp add: upt_conv_Cons)
    with True conn sf IH show ?thesis
      by (subst cycles.simps) (simp add: cycle_events_def)
  qed
qed

lemma Usage_notin_send_frames: "Usage \<notin> set (fst (send_frames env i f frames))"
proof (induction env i f frames rule: send_frames.induct)
  case (1 env i f frames)
  show ?case
  proof (cases "int f < frames \<and> getbitmap env i f = None \<and> sendframe env i f = None")
    case False
    then show ?thesis
      by (subst send_frames.simps) (auto split: option.splits)
  next
    case True
    with "1.IH" have "Usage \<notin> set (fst (send_frames env i (f + 1) frames))"
      by simp
    with True show ?thesis
      by (subst send_frames.simps) (auto split: prod.splits)
  qed
qed

lemma Usage_notin_cycles:
  "Usage \<notin> set (fst (cycles env clientname p usessl frames i iter))"
proof (induction env clientname p usessl frames i iter rule: cycles.induct)
  case (1 env clientname p usessl frames i iter)
  obtain es r where sf: "send_frames env i 0 frames = (es, r)"
    by (cases "send_frames env i 0 frames")
  have es: "Usage \<notin> set es"
    using Usage_notin_send_frames [of env i 0 frames] sf by simp
  show ?case
  proof (cases "int i < iter \<and> new_rrdisplayclient env i = None \<and> r = None")
    case False
    with sf es show ?thesis
      by (subst cycles.simps) (auto split: option.splits)
  next
    case True
    with "1.IH" sf have "Usage \<notin> set (fst (cycles env clientname p usessl frames (i + 1) iter))"
      by simp
    with True sf es show ?thesis
      by (subst cycles.simps) (auto split: prod.splits)
  qed
qed

lemma Usage_notin_try_block:
  "Usage \<notin> set (fst (try_block env RR_DEFAULTPORT RR_DEFAULTSSLPORT argv iter frames))"
proof -
  obtain usessl clientname0 where sc: "scan_args argv 0 False None = (usessl, clientname0)"
    by (cases "scan_args argv 0 False None")
  define clientname where
    "clientname = (case clientname0 of None \<Rightarrow> DisplayString env | Some c \<Rightarrow> c)"
  define p where "p = select_port RR_DEFAULTPORT RR_DEFAULTSSLPORT usessl"
  obtain es r where cy: "cycles env clientname p usessl frames 0 iter = (es, r)"
    by (cases "cycles env clientname p usessl frames 0 iter")
  have "Usage \<notin> set es"
    using Usage_notin_cycles [of env clientname p usessl frames 0 iter] cy by simp
  then show ?thesis
    using cy
    by (simp add: try_block_def Let_def sc flip: clientname_def p_def)
qed

lemma harness_main_malformed:
  "args_malformed argv \<Longrightarrow> harness_main env RR_DEFAULTPORT RR_DEFAULTSSLPORT argv = ([Usage], 1)"
  by (simp add: harness_main_def)

lemma harness_main_wellformed:
  assumes "\<not> args_malformed argv"
  shows "snd (harness_main env RR_DEFAULTPORT RR_DEFAULTSSLPORT argv) = 0"
    and "Usage \<notin> set (fst (harness_main env RR_DEFAULTPORT RR_DEFAULTSSLPORT argv))"
proof -
  show "snd (harness_main env RR_DEFAULTPORT RR_DEFAULTSSLPORT argv) = 0"
    using assms by (simp add: harness_main_def Let_def split: prod.splits)
  show "Usage \<notin> set (fst (harness_main env RR_DEFAULTPORT RR_DEFAULTSSLPORT argv))"
    using assms
      Usage_notin_try_block [of env RR_DEFAULTPORT RR_DEFAULTSSLPORT argv
        "atoi (argv ! 1)" "atoi (argv ! 2)"]
    by (auto simp add: harness_main_def Let_def split: prod.splits option.splits)
qed

lemma harness_main_succeeds:
  assumes "\<not> args_malformed argv"
    and "env_succeeds env (atoi (argv ! 1)) (atoi (argv ! 2))"
  shows "fst (harness_main env RR_DEFAULTPORT RR_DEFAULTSSLPORT argv)
         = [CreatingWindow (XCreateSimpleWindow env), TestingIterations (atoi (argv ! 1))]
           @ concat (map (cycle_events (harness_clientname env argv)
                            (harness_port RR_DEFAULTPORT RR_DEFAULTSSLPORT argv)
                            (fst (scan_args argv 0 False None)) (atoi (argv ! 2)))
                       [0..<nat (atoi (argv ! 1))])
           @ [XDestroyWindow, XCloseDisplay]"
proof -
  define iter where "iter = atoi (argv ! 1)"
  define frames where "frames = atoi (argv ! 2)"
  obtain usessl clientname0 where sc: "scan_args argv 0 False None = (usessl, clientname0)"
    by (cases "scan_args argv 0 False None")
  define clientname where
    "clientname = (case clientname0 of None \<Rightarrow> DisplayString env | Some c \<Rightarrow> c)"
  define p where "p = select_port RR_DEFAULTPORT RR_DEFAULTSSLPORT usessl"
  from assms(2) have x: "XInitThreads env" "XOpenDisplay env \<noteq> NULL"
    "XCreateSimpleWindow env \<noteq> 0" "XMapRaised env"
    and cy: "\<forall>i' < nat iter. new_rrdisplayclient env i' = None
            \<and> (\<forall>f < nat frames. getbitmap env i' f = None \<and> sendframe env i' f = None)"
    unfolding iter_def frames_def by (simp_all add: env_succeeds_def)
  have c: "cycles env clientname p usessl frames 0 iter
           = (concat (map (cycle_events clientname p usessl frames) [0..<nat iter]), None)"
    using cy by (rule cycles_succeeds)
  have tb: "try_block env RR_DEFAULTPORT RR_DEFAULTSSLPORT argv iter frames
            = (CreatingWindow (XCreateSimpleWindow env) # TestingIterations iter
                 # concat (map (cycle_events clientname p usessl frames) [0..<nat iter]),
               XOpenDisplay env, XCreateSimpleWindow env, None)"
    using x c by (simp add: try_block_def Let_def sc flip: clientname_def p_def)
  have main: "harness_main env RR_DEFAULTPORT RR_DEFAULTSSLPORT argv
        = (case try_block env RR_DEFAULTPORT RR_DEFAULTSSLPORT argv iter frames of
             (es, dpy, win, r) \<Rightarrow>
               (es
                @ (case r of None \<Rightarrow> [] | Some m \<Rightarrow> [ErrorMessage m])
                @ (if win \<noteq> 0 then [XDestroyWindow] else [])
                @ (if dpy \<noteq> NULL then [XCloseDisplay] else []),
                0))"
    using assms(1) unfolding harness_main_def Let_def iter_def frames_def by simp
  have names: "harness_clientname env argv = clientname"
    "harness_port RR_DEFAULTPORT RR_DEFAULTSSLPORT argv = p"
    "fst (scan_args argv 0 False None) = usessl"
    by (simp_all add: harness_clientname_def harness_port_def sc clientname_def p_def)
  have "fst (harness_main env RR_DEFAULTPORT RR_DEFAULTSSLPORT argv)
        = [CreatingWindow (XCreateSimpleWindow env), TestingIterations iter]
          @ concat (map (cycle_events clientname p usessl frames) [0..<nat iter])
          @ [XDestroyWindow, XCloseDisplay]"
    using x by (simp add: main tb)
  then show ?thesis
    unfolding names iter_def frames_def .
qed

lemma args_malformed_iff:
  "args_malformed argv
     \<longleftrightarrow> length argv < 3 \<or> atoi (argv ! 1) < 1 \<or> atoi (argv ! 2) < 1"
  by (auto simp add: args_malformed_def)

lemma send_frames_fails:
  assumes "f \<le> j" and "int j < frames" and "frames_succeed env i j"
    and "getbitmap env i j = Some m
         \<or> getbitmap env i j = None \<and> sendframe env i j = Some m"
  shows "send_frames env i f frames = (map (SendFrame i) [f..<j], Some m)"
  using assms
proof (induction env i f frames rule: send_frames.induct)
  case (1 env i f frames)
  show ?case
  proof (cases "f = j")
    case True
    with "1.prems"(2,4) show ?thesis
      by (subst send_frames.simps) auto
  next
    case False
    with "1.prems"(1) have lt: "f < j" by simp
    with "1.prems"(2) have cond: "int f < frames" by simp
    from lt "1.prems"(3) have ok: "getbitmap env i f = None" "sendframe env i f = None"
      by (simp_all add: frames_succeed_def)
    from lt have le: "f + 1 \<le> j" by simp
    have IH: "send_frames env i (f + 1) frames = (map (SendFrame i) [f + 1..<j], Some m)"
      using "1.IH" [OF cond ok le "1.prems"(2,3,4)] .
    have "[f..<j] = f # [f + 1..<j]"
      using lt by (simp add: upt_conv_Cons)
    with cond ok IH show ?thesis
      by (subst send_frames.simps) simp
  qed
qed

lemma cycles_prefix:
  assumes "i \<le> k" and "int k < iter" and "cycles_succeed env k frames"
  shows "cycles env clientname p usessl frames i iter
         = (concat (map (cycle_events clientname p usessl frames) [i..<k])
              @ fst (cycles env clientname p usessl frames k iter),
            snd (cycles env clientname p usessl frames k iter))"
  using assms
proof (induction env clientname p usessl frames i iter rule: cycles.induct)
  case (1 env clientname p usessl frames i iter)
  show ?case
  proof (cases "i = k")
    case True
    then show ?thesis by simp
  next
    case False
    with "1.prems"(1) have lt: "i < k" by simp
    with "1.prems"(2) have cond: "int i < iter" by simp
    from lt "1.prems"(3) have conn: "new_rrdisplayclient env i = None"
      and fr: "\<forall>f < nat frames. getbitmap env i f = None \<and> sendframe env i f = None"
      by (simp_all add: cycles_succeed_def frames_succeed_def)
    have sf: "send_frames env i 0 frames = (map (SendFrame i) [0..<nat frames], None)"
      using fr by (rule send_frames_succeeds)
    from lt have le: "i + 1 \<le> k" by simp
    have IH: "cycles env clientname p usessl frames (i + 1) iter
         = (concat (map (cycle_events clientname p usessl frames) [i + 1..<k])
              @ fst (cycles env clientname p usessl frames k iter),
            snd (cycles env clientname p usessl frames k iter))"
      using "1.IH" [OF cond conn sf [symmetric] refl le "1.prems"(2,3)] .
    have "[i..<k] = i # [i + 1..<k]"
      using lt by (simp add: upt_conv_Cons)
    with cond conn sf IH show ?thesis
      by (subst cycles.simps) (simp add: cycle_events_def)
  qed
qed

lemma cycles_fails_connect:
  assumes "int k < iter" and "new_rrdisplayclient env k = Some m"
  shows "cycles env clientname p usessl frames k iter = ([], Some m)"
  using assms by (subst cycles.simps) simp

lemma cycles_fails_frame:
  assumes "int k < iter" and "new_rrdisplayclient env k = None"
    and "int j < frames" and "frames_succeed env k j"
    and "getbitmap env k j = Some m
         \<or> getbitmap env k j = None \<and> sendframe env k j = Some m"
  shows "cycles env clientname p usessl frames k iter
         = (Connect k clientname p usessl # map (SendFrame k) [0..<j], Some m)"
proof -
  have "send_frames env k 0 frames = (map (SendFrame k) [0..<j], Some m)"
    using assms(3,4,5) by (intro send_frames_fails) simp_all
  with assms(1,2) show ?thesis
    by (subst cycles.simps) simp
qed

lemma harness_main_x_ok:
  assumes "\<not> args_malformed argv" and "x_setup_succeeds env"
  shows "fst (harness_main env RR_DEFAULTPORT RR_DEFAULTSSLPORT argv)
         = harness_prologue env argv
           @ fst (cycles env (harness_clientname env argv)
                    (harness_port RR_DEFAULTPORT RR_DEFAULTSSLPORT argv)
                    (fst (scan_args argv 0 False None)) (atoi (argv ! 2)) 0 (atoi (argv ! 1)))
           @ (case snd (cycles env (harness_clientname env argv)
                    (harness_port RR_DEFAULTPORT RR_DEFAULTSSLPORT argv)
                    (fst (scan_args argv 0 False None)) (atoi (argv ! 2)) 0 (atoi (argv ! 1)))
              of None \<Rightarrow> [] | Some m \<Rightarrow> [ErrorMessage m])
           @ [XDestroyWindow, XCloseDisplay]"
proof -
  define iter where "iter = atoi (argv ! 1)"
  define frames where "frames = atoi (argv ! 2)"
  obtain usessl clientname0 where sc: "scan_args argv 0 False None = (usessl, clientname0)"
    by (cases "scan_args argv 0 False None")
  define clientname where
    "clientname = (case clientname0 of None \<Rightarrow> DisplayString env | Some c \<Rightarrow> c)"
  define p where "p = select_port RR_DEFAULTPORT RR_DEFAULTSSLPORT usessl"
  obtain es r where cy: "cycles env clientname p usessl frames 0 iter = (es, r)"
    by (cases "cycles env clientname p usessl frames 0 iter")
  from assms(2) have x: "XInitThreads env" "XOpenDisplay env \<noteq> NULL"
    "XCreateSimpleWindow env \<noteq> 0" "XMapRaised env"
    by (simp_all add: x_setup_succeeds_def)
  have tb: "try_block env RR_DEFAULTPORT RR_DEFAULTSSLPORT argv iter frames
            = (CreatingWindow (XCreateSimpleWindow env) # TestingIterations iter # es,
               XOpenDisplay env, XCreateSimpleWindow env, r)"
    using x cy by (simp add: try_block_def Let_def sc flip: clientname_def p_def)
  have main: "harness_main env RR_DEFAULTPORT RR_DEFAULTSSLPORT argv
        = (case try_block env RR_DEFAULTPORT RR_DEFAULTSSLPORT argv iter frames of
             (es, dpy, win, r) \<Rightarrow>
               (es
                @ (case r of None \<Rightarrow> [] | Some m \<Rightarrow> [ErrorMessage m])
                @ (if win \<noteq> 0 then [XDestroyWindow] else [])
                @ (if dpy \<noteq> NULL then [XCloseDisplay] else []),
                0))"
    using assms(1) unfolding harness_main_def Let_def iter_def frames_def by simp
  have names: "harness_clientname env argv = clientname"
    "harness_port RR_DEFAULTPORT RR_DEFAULTSSLPORT argv = p"
    "fst (scan_args argv 0 False None) = usessl"
    by (simp_all add: harness_clientname_def harness_port_def sc clientname_def p_def)
  have pro: "harness_prologue env argv
             = [CreatingWindow (XCreateSimpleWindow env), TestingIterations iter]"
    unfolding iter_def by (simp add: harness_prologue_def)
  have "fst (harness_main env RR_DEFAULTPORT RR_DEFAULTSSLPORT argv)
        = harness_prologue env argv
          @ fst (cycles env clientname p usessl frames 0 iter)
          @ (case snd (cycles env clientname p usessl frames 0 iter)
             of None \<Rightarrow> [] | Some m \<Rightarrow> [ErrorMessage m])
          @ [XDestroyWindow, XCloseDisplay]"
    using x by (simp add: main tb cy pro)
  then show ?thesis
    unfolding names iter_def frames_def .
qed

lemma harness_main_x_fails:
  assumes "\<not> args_malformed argv"
  shows "\<not> XInitThreads env \<Longrightarrow>
           fst (harness_main env RR_DEFAULTPORT RR_DEFAULTSSLPORT argv)
             = [ErrorMessage ''Could not initialize X threads'']"
    and "XInitThreads env \<Longrightarrow> XOpenDisplay env = NULL \<Longrightarrow>
           fst (harness_main env RR_DEFAULTPORT RR_DEFAULTSSLPORT argv)
             = [ErrorMessage ''Could not open display'']"
    and "XInitThreads env \<Longrightarrow> XOpenDisplay env \<noteq> NULL \<Longrightarrow> XCreateSimpleWindow env = 0 \<Longrightarrow>
           fst (harness_main env RR_DEFAULTPORT RR_DEFAULTSSLPORT argv)
             = [ErrorMessage ''Could not create window'', XCloseDisplay]"
    and "XInitThreads env \<Longrightarrow> XOpenDisplay env \<noteq> NULL \<Longrightarrow> XCreateSimpleWindow env \<noteq> 0 \<Longrightarrow>
         \<not> XMapRaised env \<Longrightarrow>
           fst (harness_main env RR_DEFAULTPORT RR_DEFAULTSSLPORT argv)
             = [CreatingWindow (XCreateSimpleWindow env),
                ErrorMessage ''Unexpected NULL condition'', XDestroyWindow, XCloseDisplay]"
  using assms
  by (simp_all add: harness_main_def try_block_def Let_def NULL_def split: prod.splits)

lemma harness_main_connect_fails:
  assumes "\<not> args_malformed argv" and "x_setup_succeeds env"
    and "k < nat (atoi (argv ! 1))" and "cycles_succeed env k (atoi (argv ! 2))"
    and "new_rrdisplayclient env k = Some m"
  shows "fst (harness_main env RR_DEFAULTPORT RR_DEFAULTSSLPORT argv)
         = harness_prologue env argv
           @ completed_cycles env RR_DEFAULTPORT RR_DEFAULTSSLPORT argv k
           @ [ErrorMessage m, XDestroyWindow, XCloseDisplay]"
proof -
  from assms(3) have k: "int k < atoi (argv ! 1)" by simp
  show ?thesis
    unfolding harness_main_x_ok [OF assms(1,2)]
      cycles_prefix [OF le0 k assms(4)] cycles_fails_connect [OF k assms(5)]
      completed_cycles_def
    by simp
qed

lemma harness_main_frame_fails:
  assumes "\<not> args_malformed argv" and "x_setup_succeeds env"
    and "k < nat (atoi (argv ! 1))" and "cycles_succeed env k (atoi (argv ! 2))"
    and "new_rrdisplayclient env k = None"
    and "j < nat (atoi (argv ! 2))" and "frames_succeed env k j"
    and "getbitmap env k j = Some m
         \<or> getbitmap env k j = None \<and> sendframe env k j = Some m"
  shows "fst (harness_main env RR_DEFAULTPORT RR_DEFAULTSSLPORT argv)
         = harness_prologue env argv
           @ completed_cycles env RR_DEFAULTPORT RR_DEFAULTSSLPORT argv k
           @ connect_event env RR_DEFAULTPORT RR_DEFAULTSSLPORT argv k
             # map (SendFrame k) [0..<j]
           @ [ErrorMessage m, XDestroyWindow, XCloseDisplay]"
proof -
  from assms(3) have k: "int k < atoi (argv ! 1)" by simp
  from assms(6) have j: "int j < atoi (argv ! 2)" by simp
  show ?thesis
    unfolding harness_main_x_ok [OF assms(1,2)]
      cycles_prefix [OF le0 k assms(4)]
      cycles_fails_frame [OF k assms(5) j assms(7,8)]
      completed_cycles_def connect_event_def
    by simp
qed


text \<open>
  Claim C7, as the code has it.  The harness prints the usage message and exits with
  status 1 exactly when its arguments are malformed: fewer than two arguments after
  the program name, or an iterations value that \<open>atoi\<close> reads as less than 1, or a
  frames value that \<open>atoi\<close> reads as less than 1.  On well-formed arguments it prints
  no usage message and exits with status 0, whatever happens.  If the X calls
  succeed and no call of a cycle throws, it runs exactly the given number of cycles,
  each one connect, the given number of frames, and one disconnect.  If an X call
  fails, its error is printed and no cycle is run.  If the connect of cycle \<open>k\<close> or
  frame \<open>j\<close> of cycle \<open>k\<close> throws after everything before it went through, the
  harness has run the \<open>k\<close> complete cycles before it (and, for a frame, the connect
  and the \<open>j\<close> frames before it), prints the error and runs nothing more of the
  cycles: no disconnect of cycle \<open>k\<close>, no later frame, no later cycle.
\<close>

theorem harness_usage_and_cycles:
  "(length argv < 3 \<or> atoi (argv ! 1) < 1 \<or> atoi (argv ! 2) < 1 \<longrightarrow>
      harness_main env RR_DEFAULTPORT RR_DEFAULTSSLPORT argv = ([Usage], 1))
   \<and> (\<not> (length argv < 3 \<or> atoi (argv ! 1) < 1 \<or> atoi (argv ! 2) < 1) \<longrightarrow>
      snd (harness_main env RR_DEFAULTPORT RR_DEFAULTSSLPORT argv) = 0
      \<and> Usage \<notin> set (fst (harness_main env RR_DEFAULTPORT RR_DEFAULTSSLPORT argv))
      \<and> (env_succeeds env (atoi (argv ! 1)) (atoi (argv ! 2)) \<longrightarrow>
           fst (harness_main env RR_DEFAULTPORT RR_DEFAULTSSLPORT argv)
             = harness_prologue env argv
               @ completed_cycles env RR_DEFAULTPORT RR_DEFAULTSSLPORT argv
                   (nat (atoi (argv ! 1)))
               @ [XDestroyWindow, XCloseDisplay])
      \<and> (\<not> XInitThreads env \<longrightarrow>
           fst (harness_main env RR_DEFAULTPORT RR_DEFAULTSSLPORT argv) = [ErrorMessage ''Could not initialize X threads''])
      \<and> (XInitThreads env \<and> XOpenDisplay env = NULL \<longrightarrow>
           fst (harness_main env RR_DEFAULTPORT RR_DEFAULTSSLPORT argv) = [ErrorMessage ''Could not open display''])
      \<and> (XInitThreads env \<and> XOpenDisplay env \<noteq> NULL \<and> XCreateSimpleWindow env = 0 \<longrightarrow>
           fst (harness_main env RR_DEFAULTPORT RR_DEFAULTSSLPORT argv) = [ErrorMessage ''Could not create window'', XCloseDisplay])
      \<and> (XInitThreads env \<and> XOpenDisplay env \<noteq> NULL \<and> XCreateSimpleWindow env \<noteq> 0
           \<and> \<not> XMapRaised env \<longrightarrow>
           fst (harness_main env RR_DEFAULTPORT RR_DEFAULTSSLPORT argv)
             = [CreatingWindow (XCreateSimpleWindow env),
                ErrorMessage ''Unexpected NULL condition'', XDestroyWindow, XCloseDisplay])
      \<and> (x_setup_succeeds env \<and> k < nat (atoi (argv ! 1))
           \<and> cycles_succeed env k (atoi (argv ! 2))
           \<and> new_rrdisplayclient env k = Some m \<longrightarrow>
           fst (harness_main env RR_DEFAULTPORT RR_DEFAULTSSLPORT argv)
             = harness_prologue env argv
               @ completed_cycles env RR_DEFAULTPORT RR_DEFAULTSSLPORT argv k
               @ [ErrorMessage m, XDestroyWindow, XCloseDisplay])
      \<and> (x_setup_succeeds env \<and> k < nat (atoi (argv ! 1))
           \<and> cycles_succeed env k (atoi (argv ! 2))
           \<and> new_rrdisplayclient env k = None
           \<and> j < nat (atoi (argv ! 2)) \<and> frames_succeed env k j
           \<and> (getbitmap env k j = Some m
                \<or> getbitmap env k j = None \<and> sendframe env k j = Some m) \<longrightarrow>
           fst (harness_main env RR_DEFAULTPORT RR_DEFAULTSSLPORT argv)
             = harness_prologue env argv
               @ completed_cycles env RR_DEFAULTPORT RR_DEFAULTSSLPORT argv k
               @ connect_event env RR_DEFAULTPORT RR_DEFAULTSSLPORT argv k
                 # map (SendFrame k) [0..<j]
               @ [ErrorMessage m, XDestroyWindow, XCloseDisplay]))"
proof (cases "args_malformed argv")
  case True
  then have "length argv < 3 \<or> atoi (argv ! 1) < 1 \<or> atoi (argv ! 2) < 1"
    unfolding args_malformed_iff .
  with harness_main_malformed [OF True] show ?thesis
    by blast
next
  case False
  have succeeds: "fst (harness_main env RR_DEFAULTPORT RR_DEFAULTSSLPORT argv)
             = harness_prologue env argv
               @ completed_cycles env RR_DEFAULTPORT RR_DEFAULTSSLPORT argv
                   (nat (atoi (argv ! 1)))
               @ [XDestroyWindow, XCloseDisplay]"
    if "env_succeeds env (atoi (argv ! 1)) (atoi (argv ! 2))"
    unfolding harness_main_succeeds [OF False that] harness_prologue_def completed_cycles_def
    by simp
  have wf: "\<not> (length argv < 3 \<or> atoi (argv ! 1) < 1 \<or> atoi (argv ! 2) < 1)"
    using False unfolding args_malformed_iff .
  note wellformed =
    harness_main_wellformed [OF False, of env RR_DEFAULTPORT RR_DEFAULTSSLPORT]
  note x_fails =
    harness_main_x_fails [OF False, of env RR_DEFAULTPORT RR_DEFAULTSSLPORT]
  note connect_fails =
    harness_main_connect_fails [OF False, of env k m RR_DEFAULTPORT RR_DEFAULTSSLPORT]
  note frame_fails =
    harness_main_frame_fails [OF False, of env k j m RR_DEFAULTPORT RR_DEFAULTSSLPORT]
  from wf succeeds wellformed x_fails connect_fails frame_fails
  show ?thesis
    by blast
qed


theorem harness_usage_and_cycles_witness:
  "length [''prog'', ''2''] < 3
   \<and> harness_main working_env 4242 4243 [''prog'', ''2''] = ([Usage], 1)
   \<and> atoi ([''prog'', ''0'', ''2''] ! 1) < 1
   \<and> harness_main working_env 4242 4243 [''prog'', ''0'', ''2''] = ([Usage], 1)
   \<and> atoi ([''prog'', ''2'', ''0''] ! 2) < 1
   \<and> harness_main working_env 4242 4243 [''prog'', ''2'', ''0''] = ([Usage], 1)
   \<and> \<not> (length [''prog'', ''2'', ''2'', ''-SSL''] < 3 \<or> atoi ([''prog'', ''2'', ''2'', ''-SSL''] ! 1) < 1 \<or> atoi ([''prog'', ''2'', ''2'', ''-SSL''] ! 2) < 1)
   \<and> env_succeeds working_env (atoi ([''prog'', ''2'', ''2'', ''-SSL''] ! 1)) (atoi ([''prog'', ''2'', ''2'', ''-SSL''] ! 2))
   \<and> harness_main working_env 4242 4243 [''prog'', ''2'', ''2'', ''-SSL'']
       = ([CreatingWindow 5, TestingIterations 2,
           Connect 0 '':0.0'' 4243 True, SendFrame 0 0, SendFrame 0 1, Disconnect 0,
           Connect 1 '':0.0'' 4243 True, SendFrame 1 0, SendFrame 1 1, Disconnect 1,
           XDestroyWindow, XCloseDisplay], 0)
   \<and> \<not> XInitThreads no_threads_env
   \<and> harness_main no_threads_env 4242 4243 [''prog'', ''2'', ''2'', ''-SSL'']
       = ([ErrorMessage ''Could not initialize X threads''], 0)
   \<and> (XInitThreads no_display_env \<and> XOpenDisplay no_display_env = NULL)
   \<and> harness_main no_display_env 4242 4243 [''prog'', ''2'', ''2'', ''-SSL'']
       = ([ErrorMessage ''Could not open display''], 0)
   \<and> (XInitThreads no_window_env \<and> XOpenDisplay no_window_env \<noteq> NULL
     \<and> XCreateSimpleWindow no_window_env = 0)
   \<and> harness_main no_window_env 4242 4243 [''prog'', ''2'', ''2'', ''-SSL'']
       = ([ErrorMessage ''Could not create window'', XCloseDisplay], 0)
   \<and> (XInitThreads no_map_env \<and> XOpenDisplay no_map_env \<noteq> NULL
     \<and> XCreateSimpleWindow no_map_env \<noteq> 0 \<and> \<not> XMapRaised no_map_env)
   \<and> harness_main no_map_env 4242 4243 [''prog'', ''2'', ''2'', ''-SSL'']
       = ([CreatingWindow 5, ErrorMessage ''Unexpected NULL condition'',
           XDestroyWindow, XCloseDisplay], 0)
   \<and> (x_setup_succeeds refused_env \<and> 1 < nat (atoi ([''prog'', ''2'', ''2'', ''-SSL''] ! 1))
     \<and> cycles_succeed refused_env 1 (atoi ([''prog'', ''2'', ''2'', ''-SSL''] ! 2))
     \<and> new_rrdisplayclient refused_env 1 = Some ''Connection refused'')
   \<and> harness_main refused_env 4242 4243 [''prog'', ''2'', ''2'', ''-SSL'']
       = ([CreatingWindow 5, TestingIterations 2,
           Connect 0 '':0.0'' 4243 True, SendFrame 0 0, SendFrame 0 1, Disconnect 0,
           ErrorMessage ''Connection refused'', XDestroyWindow, XCloseDisplay], 0)
   \<and> (x_setup_succeeds no_bitmap_env \<and> 1 < nat (atoi ([''prog'', ''2'', ''2'', ''-SSL''] ! 1))
     \<and> cycles_succeed no_bitmap_env 1 (atoi ([''prog'', ''2'', ''2'', ''-SSL''] ! 2))
     \<and> new_rrdisplayclient no_bitmap_env 1 = None
     \<and> 1 < nat (atoi ([''prog'', ''2'', ''2'', ''-SSL''] ! 2)) \<and> frames_succeed no_bitmap_env 1 1
     \<and> getbitmap no_bitmap_env 1 1 = Some ''Unexpected NULL condition'')
   \<and> harness_main no_bitmap_env 4242 4243 [''prog'', ''2'', ''2'', ''-SSL'']
       = ([CreatingWindow 5, TestingIterations 2,
           Connect 0 '':0.0'' 4243 True, SendFrame 0 0, SendFrame 0 1, Disconnect 0,
           Connect 1 '':0.0'' 4243 True, SendFrame 1 0,
           ErrorMessage ''Unexpected NULL condition'', XDestroyWindow, XCloseDisplay], 0)
   \<and> (x_setup_succeeds broken_send_env \<and> 0 < nat (atoi ([''prog'', ''2'', ''2'', ''-SSL''] ! 1))
     \<and> cycles_succeed broken_send_env 0 (atoi ([''prog'', ''2'', ''2'', ''-SSL''] ! 2))
     \<and> new_rrdisplayclient broken_send_env 0 = None
     \<and> 1 < nat (atoi ([''prog'', ''2'', ''2'', ''-SSL''] ! 2)) \<and> frames_succeed broken_send_env 0 1
     \<and> getbitmap broken_send_env 0 1 = None
     \<and> sendframe broken_send_env 0 1 = Some ''Broken pipe'')
   \<and> harness_main broken_send_env 4242 4243 [''prog'', ''2'', ''2'', ''-SSL'']
       = ([CreatingWindow 5, TestingIterations 2,
           Connect 0 '':0.0'' 4243 True, SendFrame 0 0,
           ErrorMessage ''Broken pipe'', XDestroyWindow, XCloseDisplay], 0)"
proof -
  note hdefs = x_setup_succeeds_def cycles_succeed_def frames_succeed_def env_succeeds_def
        working_env_def no_display_env_def no_threads_env_def no_window_env_def no_map_env_def
        refused_env_def no_bitmap_env_def broken_send_env_def NULL_def
  have m1: "length [''prog'', ''2''] < 3"
    by simp
  have m1r: "harness_main working_env 4242 4243 [''prog'', ''2''] = ([Usage], 1)"
    by code_simp
  have m2: "atoi ([''prog'', ''0'', ''2''] ! 1) < 1"
    by code_simp
  have m2r: "harness_main working_env 4242 4243 [''prog'', ''0'', ''2''] = ([Usage], 1)"
    by code_simp
  have m3: "atoi ([''prog'', ''2'', ''0''] ! 2) < 1"
    by code_simp
  have m3r: "harness_main working_env 4242 4243 [''prog'', ''2'', ''0''] = ([Usage], 1)"
    by code_simp
  have wf: "\<not> (length [''prog'', ''2'', ''2'', ''-SSL''] < 3 \<or> atoi ([''prog'', ''2'', ''2'', ''-SSL''] ! 1) < 1 \<or> atoi ([''prog'', ''2'', ''2'', ''-SSL''] ! 2) < 1)"
    by code_simp
  have ok: "env_succeeds working_env (atoi ([''prog'', ''2'', ''2'', ''-SSL''] ! 1)) (atoi ([''prog'', ''2'', ''2'', ''-SSL''] ! 2))"
    by (simp add: hdefs)
  have okr: "harness_main working_env 4242 4243 [''prog'', ''2'', ''2'', ''-SSL'']
       = ([CreatingWindow 5, TestingIterations 2,
           Connect 0 '':0.0'' 4243 True, SendFrame 0 0, SendFrame 0 1, Disconnect 0,
           Connect 1 '':0.0'' 4243 True, SendFrame 1 0, SendFrame 1 1, Disconnect 1,
           XDestroyWindow, XCloseDisplay], 0)"
    by code_simp
  have t: "\<not> XInitThreads no_threads_env"
    by (simp add: hdefs)
  have tr: "harness_main no_threads_env 4242 4243 [''prog'', ''2'', ''2'', ''-SSL'']
       = ([ErrorMessage ''Could not initialize X threads''], 0)"
    by code_simp
  have d: "XInitThreads no_display_env \<and> XOpenDisplay no_display_env = NULL"
    by (simp add: hdefs)
  have dr: "harness_main no_display_env 4242 4243 [''prog'', ''2'', ''2'', ''-SSL'']
       = ([ErrorMessage ''Could not open display''], 0)"
    by code_simp
  have w: "XInitThreads no_window_env \<and> XOpenDisplay no_window_env \<noteq> NULL
     \<and> XCreateSimpleWindow no_window_env = 0"
    by (simp add: hdefs)
  have wr: "harness_main no_window_env 4242 4243 [''prog'', ''2'', ''2'', ''-SSL'']
       = ([ErrorMessage ''Could not create window'', XCloseDisplay], 0)"
    by code_simp
  have p: "XInitThreads no_map_env \<and> XOpenDisplay no_map_env \<noteq> NULL
     \<and> XCreateSimpleWindow no_map_env \<noteq> 0 \<and> \<not> XMapRaised no_map_env"
    by (simp add: hdefs)
  have pr: "harness_main no_map_env 4242 4243 [''prog'', ''2'', ''2'', ''-SSL'']
       = ([CreatingWindow 5, ErrorMessage ''Unexpected NULL condition'',
           XDestroyWindow, XCloseDisplay], 0)"
    by code_simp
  have i2: "atoi ([''prog'', ''2'', ''2'', ''-SSL''] ! 1) = 2 \<and> atoi ([''prog'', ''2'', ''2'', ''-SSL''] ! 2) = 2"
    by code_simp
  have c: "x_setup_succeeds refused_env \<and> 1 < nat (atoi ([''prog'', ''2'', ''2'', ''-SSL''] ! 1))
     \<and> cycles_succeed refused_env 1 (atoi ([''prog'', ''2'', ''2'', ''-SSL''] ! 2))
     \<and> new_rrdisplayclient refused_env 1 = Some ''Connection refused''"
    using i2 by (simp add: hdefs)
  have cr: "harness_main refused_env 4242 4243 [''prog'', ''2'', ''2'', ''-SSL'']
       = ([CreatingWindow 5, TestingIterations 2,
           Connect 0 '':0.0'' 4243 True, SendFrame 0 0, SendFrame 0 1, Disconnect 0,
           ErrorMessage ''Connection refused'', XDestroyWindow, XCloseDisplay], 0)"
    by code_simp
  have b: "x_setup_succeeds no_bitmap_env \<and> 1 < nat (atoi ([''prog'', ''2'', ''2'', ''-SSL''] ! 1))
     \<and> cycles_succeed no_bitmap_env 1 (atoi ([''prog'', ''2'', ''2'', ''-SSL''] ! 2))
     \<and> new_rrdisplayclient no_bitmap_env 1 = None
     \<and> 1 < nat (atoi ([''prog'', ''2'', ''2'', ''-SSL''] ! 2)) \<and> frames_succeed no_bitmap_env 1 1
     \<and> getbitmap no_bitmap_env 1 1 = Some ''Unexpected NULL condition''"
    using i2 by (simp add: hdefs)
  have br: "harness_main no_bitmap_env 4242 4243 [''prog'', ''2'', ''2'', ''-SSL'']
       = ([CreatingWindow 5, TestingIterations 2,
           Connect 0 '':0.0'' 4243 True, SendFrame 0 0, SendFrame 0 1, Disconnect 0,
           Connect 1 '':0.0'' 4243 True, SendFrame 1 0,
           ErrorMessage ''Unexpected NULL condition'', XDestroyWindow, XCloseDisplay], 0)"
    by code_simp
  have s: "x_setup_succeeds broken_send_env \<and> 0 < nat (atoi ([''prog'', ''2'', ''2'', ''-SSL''] ! 1))
     \<and> cycles_succeed broken_send_env 0 (atoi ([''prog'', ''2'', ''2'', ''-SSL''] ! 2))
     \<and> new_rrdisplayclient broken_send_env 0 = None
     \<and> 1 < nat (atoi ([''prog'', ''2'', ''2'', ''-SSL''] ! 2)) \<and> frames_succeed broken_send_env 0 1
     \<and> getbitmap broken_send_env 0 1 = None
     \<and> sendframe broken_send_env 0 1 = Some ''Broken pipe''"
    using i2 by (simp add: hdefs)
  have sr: "harness_main broken_send_env 4242 4243 [''prog'', ''2'', ''2'', ''-SSL'']
       = ([CreatingWindow 5, TestingIterations 2,
           Connect 0 '':0.0'' 4243 True, SendFrame 0 0,
           ErrorMessage ''Broken pipe'', XDestroyWindow, XCloseDisplay], 0)"
    by code_simp
  from m1 m1r m2 m2r m3 m3r wf ok okr t tr d dr w wr p pr c cr b br s sr
    harness_usage_and_cycles [where argv = "[''prog'', ''2'']" and env = working_env and RR_DEFAULTPORT = 4242 and RR_DEFAULTSSLPORT = 4243]
    harness_usage_and_cycles [where argv = "[''prog'', ''0'', ''2'']" and env = working_env and RR_DEFAULTPORT = 4242 and RR_DEFAULTSSLPORT = 4243]
    harness_usage_and_cycles [where argv = "[''prog'', ''2'', ''0'']" and env = working_env and RR_DEFAULTPORT = 4242 and RR_DEFAULTSSLPORT = 4243]
    harness_usage_and_cycles [where argv = "[''prog'', ''2'', ''2'', ''-SSL'']" and env = working_env and RR_DEFAULTPORT = 4242 and RR_DEFAULTSSLPORT = 4243]
    harness_usage_and_cycles [where argv = "[''prog'', ''2'', ''2'', ''-SSL'']" and env = no_threads_env and RR_DEFAULTPORT = 4242 and RR_DEFAULTSSLPORT = 4243]
    harness_usage_and_cycles [where argv = "[''prog'', ''2'', ''2'', ''-SSL'']" and env = no_display_env and RR_DEFAULTPORT = 4242 and RR_DEFAULTSSLPORT = 4243]
    harness_usage_and_cycles [where argv = "[''prog'', ''2'', ''2'', ''-SSL'']" and env = no_window_env and RR_DEFAULTPORT = 4242 and RR_DEFAULTSSLPORT = 4243]
    harness_usage_and_cycles [where argv = "[''prog'', ''2'', ''2'', ''-SSL'']" and env = no_map_env and RR_DEFAULTPORT = 4242 and RR_DEFAULTSSLPORT = 4243]
    harness_usage_and_cycles [where argv = "[''prog'', ''2'', ''2'', ''-SSL'']" and env = refused_env and RR_DEFAULTPORT = 4242 and RR_DEFAULTSSLPORT = 4243 and k = 1 and m = "''Connection refused''"]
    harness_usage_and_cycles [where argv = "[''prog'', ''2'', ''2'', ''-SSL'']" and env = no_bitmap_env and RR_DEFAULTPORT = 4242 and RR_DEFAULTSSLPORT = 4243 and k = 1 and m = "''Unexpected NULL condition''" and j = 1]
    harness_usage_and_cycles [where argv = "[''prog'', ''2'', ''2'', ''-SSL'']" and env = broken_send_env and RR_DEFAULTPORT = 4242 and RR_DEFAULTSSLPORT = 4243 and k = 0 and m = "''Broken pipe''" and j = 1]
  show ?thesis
    by simp
qed

text \<open>
  Claim C7 as stated fails: with the well-formed arguments \<open>prog 3 2\<close> and no X
  display to open, the harness prints the error, runs no cycle and exits with
  status 0.
\<close>

theorem harness_usage_and_cycles_counterexample:
  "\<not> (length [''prog'', ''3'', ''2''] < 3 \<or> atoi ([''prog'', ''3'', ''2''] ! 1) < 1
        \<or> atoi ([''prog'', ''3'', ''2''] ! 2) < 1)
   \<and> harness_main no_display_env 4242 4243 [''prog'', ''3'', ''2'']
       = ([ErrorMessage ''Could not open display''], 0)"
proof (intro conjI)
  show "\<not> (length [''prog'', ''3'', ''2''] < 3 \<or> atoi ([''prog'', ''3'', ''2''] ! 1) < 1
        \<or> atoi ([''prog'', ''3'', ''2''] ! 2) < 1)"
    by code_simp
  show "harness_main no_display_env 4242 4243 [''prog'', ''3'', ''2'']
       = ([ErrorMessage ''Could not open display''], 0)"
    by code_simp
qed

end
